theory Spec2Isabelle
  imports Complex_Main
begin

section \<open>Grids: float tensors\<close>

text \<open>
  The elements of a grid are floating-point numbers. Comparison of floats is exact, so it is
  modelled completely: the finite values are ordered as the reals they denote, the two
  infinities lie below and above all of them, and NaN compares false with everything,
  itself included.
\<close>

datatype float = NaN | NegInf | Fin real | PosInf

text \<open>The \<open>>=\<close> of two floats.\<close>

fun float_ge :: "float \<Rightarrow> float \<Rightarrow> bool" where
  "float_ge NaN _ = False"
| "float_ge _ NaN = False"
| "float_ge PosInf _ = True"
| "float_ge _ NegInf = True"
| "float_ge NegInf _ = False"
| "float_ge _ PosInf = False"
| "float_ge (Fin x) (Fin y) = (y \<le> x)"

text \<open>
  A tensor is its shape and its elements in row-major order; a well-formed tensor has as many
  elements as its shape says.
\<close>

record 'a tensor =
  shape :: "nat list"
  data :: "'a list"

definition wf_tensor :: "'a tensor \<Rightarrow> bool" where
  "wf_tensor t = (length (data t) = prod_list (shape t))"

datatype error =
    RuntimeError string
  | UnboundLocalError string
  | InvalidArgument "string list"
  | ShapeMismatch

text \<open>
  The errors: \<open>RuntimeError\<close> is what torch raises when two shapes do not broadcast,
  \<open>UnboundLocalError\<close> what Python raises when a local variable is read before any
  assignment (it carries the variable's name). \<open>InvalidArgument\<close> (with the allowed
  values) and \<open>ShapeMismatch\<close> are the error kinds of the specification.
\<close>

subsection \<open>Indices and broadcasting\<close>

text \<open>All the indices of a shape, in row-major order.\<close>

fun all_indices :: "nat list \<Rightarrow> nat list list" where
  "all_indices [] = [[]]"
| "all_indices (d # ds) = concat (map (\<lambda>i. map ((#) i) (all_indices ds)) [0..<d])"

text \<open>
  The position in the data of the element at an index, where a dimension of size 1 is
  read at 0 whatever the index says (the dimension is stretched by broadcasting).
\<close>

fun offset :: "nat list \<Rightarrow> nat list \<Rightarrow> nat" where
  "offset (d # ds) (i # is) = (if d = 1 then 0 else i) * prod_list ds + offset ds is"
| "offset _ _ = 0"

text \<open>Shapes are aligned at the right: the shorter one gets leading dimensions of size 1.\<close>

definition pad_shape :: "nat \<Rightarrow> nat list \<Rightarrow> nat list" where
  "pad_shape n s = replicate (n - length s) 1 @ s"

text \<open>Reading a tensor at an index of a shape it broadcasts to.\<close>

definition bget :: "'a tensor \<Rightarrow> nat list \<Rightarrow> 'a" where
  "bget t idx = data t ! offset (pad_shape (length idx) (shape t)) idx"

text \<open>
  The shape two shapes broadcast to, dimension by dimension: equal sizes, or one of them 1;
  anything else fails.
\<close>

fun broadcast_dims :: "nat list \<Rightarrow> nat list \<Rightarrow> error + nat list" where
  "broadcast_dims [] [] = Inr []"
| "broadcast_dims (a # as) (b # bs) =
     (if a = b \<or> b = 1 \<or> a = 1 then
        (case broadcast_dims as bs of
           Inl e \<Rightarrow> Inl e
         | Inr ds \<Rightarrow> Inr ((if a = 1 then b else a) # ds))
      else Inl (RuntimeError ''The size of tensor a must match the size of tensor b''))"
| "broadcast_dims _ _ = Inl (RuntimeError ''The size of tensor a must match the size of tensor b'')"

definition broadcast_shapes :: "nat list \<Rightarrow> nat list \<Rightarrow> error + nat list" where
  "broadcast_shapes a b =
     (let n = max (length a) (length b) in broadcast_dims (pad_shape n a) (pad_shape n b))"

text \<open>The elementwise \<open>a >= b\<close> of torch, a tensor of booleans of the broadcast shape.\<close>

definition torch_ge :: "float tensor \<Rightarrow> float tensor \<Rightarrow> error + bool tensor" where
  "torch_ge a b =
     (case broadcast_shapes (shape a) (shape b) of
        Inl e \<Rightarrow> Inl e
      | Inr s \<Rightarrow>
          Inr \<lparr>shape = s, data = map (\<lambda>idx. float_ge (bget a idx) (bget b idx)) (all_indices s)\<rparr>)"

text \<open>\<open>.to(torch.float)\<close> on a tensor of booleans: True is 1.0, False is 0.0.\<close>

definition to_float :: "bool tensor \<Rightarrow> float tensor" where
  "to_float m = \<lparr>shape = shape m, data = map (\<lambda>b. if b then Fin 1 else Fin 0) (data m)\<rparr>"

section \<open>The filter nodes\<close>

subsection \<open>BinaryThreshold\<close>

text \<open>
  \<^verbatim>\<open>thresholded = (gtf >= gtf_threshold).to(torch.float)\<close>. The node returns the
  1-tuple of its result; the model returns the result.
\<close>

definition BinaryThreshold_f :: "float tensor \<Rightarrow> float tensor \<Rightarrow> error + float tensor" where
  "BinaryThreshold_f gtf gtf_threshold =
     (case torch_ge gtf gtf_threshold of
        Inl e \<Rightarrow> Inl e
      | Inr m \<Rightarrow> Inr (to_float m))"

subsection \<open>The filter primitives and the object store\<close>

text \<open>
  Python passes tensors by reference, so a node can hand back the very object it was given.
  The store holds the tensors that exist; a reference is a position in it, and a new tensor
  is allocated at the end.
\<close>

type_synonym ref = nat

type_synonym store = "float tensor list"

text \<open>
  A primitive of \<^verbatim>\<open>gtf_impl.filters\<close> called as \<^verbatim>\<open>FT.prim(gtf, radius)\<close>: it
  runs on the store and either raises or returns a reference, leaving a store behind.
  The module is not among the sources, so its four morphological primitives are a parameter
  of the node.
\<close>

type_synonym prim = "store \<Rightarrow> ref \<Rightarrow> int \<Rightarrow> error + store \<times> ref"

record ft_impl =
  FT_dilate :: prim
  FT_erode :: prim
  FT_open :: prim
  FT_close :: prim

subsection \<open>MorphologicalFilter\<close>

text \<open>
  \<^verbatim>\<open>
  def f(gtf, operation, radius):
      if radius == 0:
          return (gtf, )
      match operation:
          case "dilate": filtered = FT.dilate(gtf, radius)
          case "erode":  filtered = FT.erode(gtf, radius)
          case "open":   filtered = FT.open(gtf, radius)
          case "close":  filtered = FT.close(gtf, radius)
      return (filtered, )
  \<close>
  The \<^verbatim>\<open>match\<close> has no default case: with any other operation no branch assigns
  \<^verbatim>\<open>filtered\<close>, and the \<^verbatim>\<open>return\<close> that reads it raises UnboundLocalError.
\<close>

definition MorphologicalFilter_f ::
    "ft_impl \<Rightarrow> store \<Rightarrow> ref \<Rightarrow> string \<Rightarrow> int \<Rightarrow> error + store \<times> ref" where
  "MorphologicalFilter_f FT s gtf operation radius =
     (if radius = 0 then Inr (s, gtf)
      else if operation = ''dilate'' then FT_dilate FT s gtf radius
      else if operation = ''erode'' then FT_erode FT s gtf radius
      else if operation = ''open'' then FT_open FT s gtf radius
      else if operation = ''close'' then FT_close FT s gtf radius
      else Inl (UnboundLocalError ''filtered''))"

text \<open>Whether a result is the error kind \<open>InvalidArgument\<close> of the specification.\<close>

fun is_InvalidArgument :: "error + 'a \<Rightarrow> bool" where
  "is_InvalidArgument (Inl (InvalidArgument _)) = True"
| "is_InvalidArgument _ = False"

text \<open>
  What a call did to the store it started from: whether the object it returned is one that
  did not exist before, and whether every object that existed before is as it was.
  A call that raised returned nothing.
\<close>

definition newly_allocated :: "store \<Rightarrow> error + store \<times> ref \<Rightarrow> bool" where
  "newly_allocated s res =
     (case res of Inl _ \<Rightarrow> True | Inr (s', r) \<Rightarrow> length s \<le> r \<and> r < length s')"

definition unmutated :: "store \<Rightarrow> error + store \<times> ref \<Rightarrow> bool" where
  "unmutated s res =
     (case res of Inl _ \<Rightarrow> True | Inr (s', r) \<Rightarrow> take (length s) s' = s)"

definition allocating :: "prim \<Rightarrow> bool" where
  "allocating p = (\<forall>s r radius. newly_allocated s (p s r radius) \<and> unmutated s (p s r radius))"

subsection \<open>The other nodes\<close>

text \<open>
  Every other node but one calls one function of \<^verbatim>\<open>gtf_impl\<close> on its inputs and
  returns the result, as in
  \<^verbatim>\<open>inverted = U.invert(gtf); return (inverted, )\<close>.
  The functions of \<^verbatim>\<open>gtf_impl\<close> are not among the sources: the nodes take them as a
  parameter, a record with one field for each function that is called. A function runs on
  the store, with the references and the numbers the node passes on.
\<close>

record library =
  U_invert :: "store \<Rightarrow> ref \<Rightarrow> error + store \<times> ref"
  U_sum_normalize :: "store \<Rightarrow> ref \<Rightarrow> nat \<times> nat \<Rightarrow> error + store \<times> ref"
  U_range_normalize :: "store \<Rightarrow> ref \<Rightarrow> nat \<times> nat \<Rightarrow> error + store \<times> ref"
  FT_patch_range_normalize :: prim
  FT_otsus_method :: prim
  FT_hysteresis_threshold :: "store \<Rightarrow> ref \<Rightarrow> ref \<Rightarrow> error + store \<times> ref"
  FT_quantize :: "store \<Rightarrow> ref \<Rightarrow> int \<Rightarrow> string \<Rightarrow> error + store \<times> ref"
  FT_convolve_2d :: "store \<Rightarrow> ref \<Rightarrow> ref \<Rightarrow> error + store \<times> ref"
  FT_gradient_suppression_mask :: "store \<Rightarrow> ref \<Rightarrow> ref \<Rightarrow> error + store \<times> ref"
  FT_patch_min :: prim
  FT_patch_max :: prim
  FT_patch_median :: prim
  FT_morphological :: ft_impl

definition Invert_f :: "library \<Rightarrow> store \<Rightarrow> ref \<Rightarrow> error + store \<times> ref" where
  "Invert_f L s gtf = U_invert L s gtf"

definition SumNormalize_f :: "library \<Rightarrow> store \<Rightarrow> ref \<Rightarrow> error + store \<times> ref" where
  "SumNormalize_f L s gtf = U_sum_normalize L s gtf (2, 3)"

definition RangeNormalize_f :: "library \<Rightarrow> store \<Rightarrow> ref \<Rightarrow> error + store \<times> ref" where
  "RangeNormalize_f L s gtf = U_range_normalize L s gtf (2, 3)"

definition PatchRangeNormalize_f ::
    "library \<Rightarrow> store \<Rightarrow> ref \<Rightarrow> int \<Rightarrow> error + store \<times> ref" where
  "PatchRangeNormalize_f L s gtf radius = FT_patch_range_normalize L s gtf radius"

definition OtsusMethod_f :: "library \<Rightarrow> store \<Rightarrow> ref \<Rightarrow> int \<Rightarrow> error + store \<times> ref" where
  "OtsusMethod_f L s gtf bins = FT_otsus_method L s gtf bins"

definition HysteresisThreshold_f ::
    "library \<Rightarrow> store \<Rightarrow> ref \<Rightarrow> ref \<Rightarrow> error + store \<times> ref" where
  "HysteresisThreshold_f L s gtf_weak gtf_strong = FT_hysteresis_threshold L s gtf_weak gtf_strong"

definition Quantize_f ::
    "library \<Rightarrow> store \<Rightarrow> ref \<Rightarrow> int \<Rightarrow> string \<Rightarrow> error + store \<times> ref" where
  "Quantize_f L s gtf steps mode = FT_quantize L s gtf steps mode"

definition Convolve_f :: "library \<Rightarrow> store \<Rightarrow> ref \<Rightarrow> ref \<Rightarrow> error + store \<times> ref" where
  "Convolve_f L s gtf gtf_kernel = FT_convolve_2d L s gtf gtf_kernel"

definition GradientNMSMask_f ::
    "library \<Rightarrow> store \<Rightarrow> ref \<Rightarrow> ref \<Rightarrow> error + store \<times> ref" where
  "GradientNMSMask_f L s gtf_r gtf_theta = FT_gradient_suppression_mask L s gtf_r gtf_theta"

definition MinFilter_f :: "library \<Rightarrow> store \<Rightarrow> ref \<Rightarrow> int \<Rightarrow> error + store \<times> ref" where
  "MinFilter_f L s gtf radius = FT_patch_min L s gtf radius"

definition MaxFilter_f :: "library \<Rightarrow> store \<Rightarrow> ref \<Rightarrow> int \<Rightarrow> error + store \<times> ref" where
  "MaxFilter_f L s gtf radius = FT_patch_max L s gtf radius"

definition MedianFilter_f :: "library \<Rightarrow> store \<Rightarrow> ref \<Rightarrow> int \<Rightarrow> error + store \<times> ref" where
  "MedianFilter_f L s gtf radius = FT_patch_median L s gtf radius"

text \<open>
  BinaryThreshold on the store. The comparison of torch makes a new tensor of booleans and
  \<^verbatim>\<open>.to(torch.float)\<close> makes a new float tensor from it; the two inputs are only read.
  The tensor of booleans is a temporary that nothing refers to once the node has returned:
  the store keeps the float tensor.
\<close>

definition BinaryThreshold_f_in_store :: "store \<Rightarrow> ref \<Rightarrow> ref \<Rightarrow> error + store \<times> ref" where
  "BinaryThreshold_f_in_store s gtf gtf_threshold =
     (case BinaryThreshold_f (s ! gtf) (s ! gtf_threshold) of
        Inl e \<Rightarrow> Inl e
      | Inr t \<Rightarrow> Inr (s @ [t], length s))"

text \<open>
  A call of a node, as the host makes it through \<^verbatim>\<open>NODE_CLASS_MAPPINGS\<close> and
  \<^verbatim>\<open>FUNCTION = "f"\<close>: the node and its arguments. The references among the arguments
  are the input grids of the call.
\<close>

datatype node_call =
    Invert_call ref
  | SumNormalize_call ref
  | RangeNormalize_call ref
  | PatchRangeNormalize_call ref int
  | BinaryThreshold_call ref ref
  | OtsusMethod_call ref int
  | HysteresisThreshold_call ref ref
  | Quantize_call ref int string
  | Convolve_call ref ref
  | GradientNMSMask_call ref ref
  | MorphologicalFilter_call ref string int
  | MinFilter_call ref int
  | MaxFilter_call ref int
  | MedianFilter_call ref int

fun run_node :: "library \<Rightarrow> store \<Rightarrow> node_call \<Rightarrow> error + store \<times> ref" where
  "run_node L s (Invert_call gtf) = Invert_f L s gtf"
| "run_node L s (SumNormalize_call gtf) = SumNormalize_f L s gtf"
| "run_node L s (RangeNormalize_call gtf) = RangeNormalize_f L s gtf"
| "run_node L s (PatchRangeNormalize_call gtf radius) = PatchRangeNormalize_f L s gtf radius"
| "run_node L s (BinaryThreshold_call gtf gtf_threshold) =
     BinaryThreshold_f_in_store s gtf gtf_threshold"
| "run_node L s (OtsusMethod_call gtf bins) = OtsusMethod_f L s gtf bins"
| "run_node L s (HysteresisThreshold_call gtf_weak gtf_strong) =
     HysteresisThreshold_f L s gtf_weak gtf_strong"
| "run_node L s (Quantize_call gtf steps mode) = Quantize_f L s gtf steps mode"
| "run_node L s (Convolve_call gtf gtf_kernel) = Convolve_f L s gtf gtf_kernel"
| "run_node L s (GradientNMSMask_call gtf_r gtf_theta) = GradientNMSMask_f L s gtf_r gtf_theta"
| "run_node L s (MorphologicalFilter_call gtf operation radius) =
     MorphologicalFilter_f (FT_morphological L) s gtf operation radius"
| "run_node L s (MinFilter_call gtf radius) = MinFilter_f L s gtf radius"
| "run_node L s (MaxFilter_call gtf radius) = MaxFilter_f L s gtf radius"
| "run_node L s (MedianFilter_call gtf radius) = MedianFilter_f L s gtf radius"

fun grid_inputs :: "node_call \<Rightarrow> ref list" where
  "grid_inputs (Invert_call gtf) = [gtf]"
| "grid_inputs (SumNormalize_call gtf) = [gtf]"
| "grid_inputs (RangeNormalize_call gtf) = [gtf]"
| "grid_inputs (PatchRangeNormalize_call gtf radius) = [gtf]"
| "grid_inputs (BinaryThreshold_call gtf gtf_threshold) = [gtf, gtf_threshold]"
| "grid_inputs (OtsusMethod_call gtf bins) = [gtf]"
| "grid_inputs (HysteresisThreshold_call gtf_weak gtf_strong) = [gtf_weak, gtf_strong]"
| "grid_inputs (Quantize_call gtf steps mode) = [gtf]"
| "grid_inputs (Convolve_call gtf gtf_kernel) = [gtf, gtf_kernel]"
| "grid_inputs (GradientNMSMask_call gtf_r gtf_theta) = [gtf_r, gtf_theta]"
| "grid_inputs (MorphologicalFilter_call gtf operation radius) = [gtf]"
| "grid_inputs (MinFilter_call gtf radius) = [gtf]"
| "grid_inputs (MaxFilter_call gtf radius) = [gtf]"
| "grid_inputs (MedianFilter_call gtf radius) = [gtf]"

text \<open>The one call that hands its input back: the morphological filter with radius 0.\<close>

fun short_circuit :: "node_call \<Rightarrow> bool" where
  "short_circuit (MorphologicalFilter_call gtf operation radius) = (radius = 0)"
| "short_circuit _ = False"

text \<open>Whether the object a call returned is none of the given objects.\<close>

definition distinct_from :: "ref list \<Rightarrow> error + store \<times> ref \<Rightarrow> bool" where
  "distinct_from rs res = (case res of Inl _ \<Rightarrow> True | Inr (s', r) \<Rightarrow> r \<notin> set rs)"

subsection \<open>The declared inputs\<close>

text \<open>
  \<^verbatim>\<open>INPUT_TYPES\<close> declares, for each input of a node, its type and the options of its
  widget: \<^verbatim>\<open>("INT", {"min": 0, "default": 1})\<close>, or a list of the strings to choose from.
  All the inputs here are under \<^verbatim>\<open>"required"\<close>.
\<close>

datatype input_spec = GTF_type | INT_type "(string \<times> int) list" | CHOICE_type "string list"

definition FilterRadiusBase_INPUT_TYPES :: "(string \<times> input_spec) list" where
  "FilterRadiusBase_INPUT_TYPES =
     [(''gtf'', GTF_type), (''radius'', INT_type [(''min'', 0), (''default'', 1)])]"

definition MorphologicalFilter_INPUT_TYPES :: "(string \<times> input_spec) list" where
  "MorphologicalFilter_INPUT_TYPES =
     [(''gtf'', GTF_type),
      (''operation'', CHOICE_type [''dilate'', ''erode'', ''open'', ''close'']),
      (''radius'', INT_type [(''default'', 3), (''min'', 1)])]"

text \<open>
  The nodes that take a radius. The four patch filters are subclasses of
  \<^verbatim>\<open>FilterRadiusBase\<close> and inherit its declaration; \<^verbatim>\<open>MorphologicalFilter\<close> is a
  subclass of \<^verbatim>\<open>FilterBase\<close> with a declaration of its own.
\<close>

datatype radius_node = PatchRangeNormalize | MinFilter | MaxFilter | MedianFilter | MorphologicalFilter

fun INPUT_TYPES :: "radius_node \<Rightarrow> (string \<times> input_spec) list" where
  "INPUT_TYPES MorphologicalFilter = MorphologicalFilter_INPUT_TYPES"
| "INPUT_TYPES _ = FilterRadiusBase_INPUT_TYPES"

text \<open>The declared minimum of the radius of a node, when it declares one.\<close>

definition radius_min :: "radius_node \<Rightarrow> int option" where
  "radius_min n =
     (case map_of (INPUT_TYPES n) ''radius'' of
        Some (INT_type opts) \<Rightarrow> map_of opts ''min''
      | _ \<Rightarrow> None)"

definition radius_max :: "radius_node \<Rightarrow> int option" where
  "radius_max n =
     (case map_of (INPUT_TYPES n) ''radius'' of
        Some (INT_type opts) \<Rightarrow> map_of opts ''max''
      | _ \<Rightarrow> None)"

text \<open>
  A value is accepted for the radius of a node when it is not below the declared minimum
  and not above the declared maximum.
\<close>

definition accepts_radius :: "radius_node \<Rightarrow> int \<Rightarrow> bool" where
  "accepts_radius n v =
     ((case radius_min n of None \<Rightarrow> True | Some m \<Rightarrow> m \<le> v) \<and>
      (case radius_max n of None \<Rightarrow> True | Some m \<Rightarrow> v \<le> m))"

section \<open>The filter library, from the specification\<close>

subsection \<open>Patch statistics and the morphological primitives\<close>

text \<open>
  Modelled from the spec: the module \<^verbatim>\<open>gtf_impl.filters\<close>, with \<^verbatim>\<open>dilate\<close>,
  \<^verbatim>\<open>erode\<close>, \<^verbatim>\<open>open\<close> and \<^verbatim>\<open>close\<close>, is not among the sources. The
  specification gives patch\_stat: for every output pixel (h, w) the statistic over the window
  [h - radius, h + radius] x [w - radius, w + radius], where a read out of bounds returns the
  nearest value in bounds; the grid is batch x channel x height x width and the radius is not
  negative. A NaN in the window is the maximum and the minimum of the window, as in torch.
\<close>

definition float_max :: "float \<Rightarrow> float \<Rightarrow> float" where
  "float_max a b = (if a = NaN \<or> b = NaN then NaN else if float_ge a b then a else b)"

definition float_min :: "float \<Rightarrow> float \<Rightarrow> float" where
  "float_min a b = (if a = NaN \<or> b = NaN then NaN else if float_ge a b then b else a)"

definition clamp_index :: "int \<Rightarrow> nat \<Rightarrow> nat" where
  "clamp_index i n = nat (max 0 (min i (int n - 1)))"

definition window :: "nat \<Rightarrow> nat \<Rightarrow> nat \<Rightarrow> nat list" where
  "window r n c = map (\<lambda>k. clamp_index (int c + int k - int r) n) [0..<2 * r + 1]"

definition patch_stat ::
    "(float \<Rightarrow> float \<Rightarrow> float) \<Rightarrow> float tensor \<Rightarrow> int \<Rightarrow> error + float tensor" where
  "patch_stat stat g radius =
     (if radius < 0 then Inl (InvalidArgument [''radius >= 0''])
      else
        (case shape g of
           [N, C, H, W] \<Rightarrow>
             Inr \<lparr>shape = [N, C, H, W],
                  data =
                    [(let vals = [bget g [n, c, h', w'].
                                   h' \<leftarrow> window (nat radius) H h, w' \<leftarrow> window (nat radius) W w]
                      in fold stat (tl vals) (hd vals)).
                     n \<leftarrow> [0..<N], c \<leftarrow> [0..<C], h \<leftarrow> [0..<H], w \<leftarrow> [0..<W]]\<rparr>
         | _ \<Rightarrow> Inl ShapeMismatch))"

text \<open>
  Modelled from the spec: dilate(g, r) = patch\_max(g, r) and erode(g, r) = patch\_min(g, r).
\<close>

definition dilate :: "float tensor \<Rightarrow> int \<Rightarrow> error + float tensor" where
  "dilate g radius = patch_stat float_max g radius"

definition erode :: "float tensor \<Rightarrow> int \<Rightarrow> error + float tensor" where
  "erode g radius = patch_stat float_min g radius"

text \<open>
  Modelled from the spec: every filter is a pure function of its inputs and returns a newly
  allocated grid. A primitive reads its argument in the store and allocates its result.
\<close>

definition returning_new :: "(float tensor \<Rightarrow> int \<Rightarrow> error + float tensor) \<Rightarrow> prim" where
  "returning_new f s r radius =
     (case f (s ! r) radius of
        Inl e \<Rightarrow> Inl e
      | Inr t \<Rightarrow> Inr (s @ [t], length s))"

text \<open>One primitive on the result of another, with the same radius.\<close>

definition and_then :: "prim \<Rightarrow> prim \<Rightarrow> prim" where
  "and_then p q s r radius =
     (case p s r radius of
        Inl e \<Rightarrow> Inl e
      | Inr (s', r') \<Rightarrow> q s' r' radius)"

text \<open>
  Modelled from the spec: open(g, r) = dilate(erode(g, r), r) and
  close(g, r) = erode(dilate(g, r), r).
\<close>

definition FT_spec :: ft_impl where
  "FT_spec =
     \<lparr>FT_dilate = returning_new dilate,
      FT_erode = returning_new erode,
      FT_open = and_then (returning_new erode) (returning_new dilate),
      FT_close = and_then (returning_new dilate) (returning_new erode)\<rparr>"

subsection \<open>The library on the store\<close>

text \<open>
  Modelled from the spec: the functions of \<^verbatim>\<open>gtf_impl\<close> are not among the sources.
  The specification says of every filter that it is a pure function of its inputs, that it
  returns a newly allocated grid and that it mutates no input. So a function of the library
  is given by what it computes from the grids it reads, and it allocates its result. What
  the functions compute is left open: it is a record of functions on grids, one for each
  function of the library; open and close are composed of dilate and erode, as above.
\<close>

record pure_library =
  invert_of :: "float tensor \<Rightarrow> error + float tensor"
  sum_normalize_of :: "float tensor \<Rightarrow> nat \<times> nat \<Rightarrow> error + float tensor"
  range_normalize_of :: "float tensor \<Rightarrow> nat \<times> nat \<Rightarrow> error + float tensor"
  patch_range_normalize_of :: "float tensor \<Rightarrow> int \<Rightarrow> error + float tensor"
  otsus_method_of :: "float tensor \<Rightarrow> int \<Rightarrow> error + float tensor"
  hysteresis_threshold_of :: "float tensor \<Rightarrow> float tensor \<Rightarrow> error + float tensor"
  quantize_of :: "float tensor \<Rightarrow> int \<Rightarrow> string \<Rightarrow> error + float tensor"
  convolve_2d_of :: "float tensor \<Rightarrow> float tensor \<Rightarrow> error + float tensor"
  gradient_suppression_mask_of :: "float tensor \<Rightarrow> float tensor \<Rightarrow> error + float tensor"
  patch_min_of :: "float tensor \<Rightarrow> int \<Rightarrow> error + float tensor"
  patch_max_of :: "float tensor \<Rightarrow> int \<Rightarrow> error + float tensor"
  patch_median_of :: "float tensor \<Rightarrow> int \<Rightarrow> error + float tensor"
  dilate_of :: "float tensor \<Rightarrow> int \<Rightarrow> error + float tensor"
  erode_of :: "float tensor \<Rightarrow> int \<Rightarrow> error + float tensor"

definition allocate :: "store \<Rightarrow> error + float tensor \<Rightarrow> error + store \<times> ref" where
  "allocate s res = (case res of Inl e \<Rightarrow> Inl e | Inr t \<Rightarrow> Inr (s @ [t], length s))"

definition library_of :: "pure_library \<Rightarrow> library" where
  "library_of P =
     \<lparr>U_invert = (\<lambda>s gtf. allocate s (invert_of P (s ! gtf))),
      U_sum_normalize = (\<lambda>s gtf dims. allocate s (sum_normalize_of P (s ! gtf) dims)),
      U_range_normalize = (\<lambda>s gtf dims. allocate s (range_normalize_of P (s ! gtf) dims)),
      FT_patch_range_normalize = returning_new (patch_range_normalize_of P),
      FT_otsus_method = returning_new (otsus_method_of P),
      FT_hysteresis_threshold =
        (\<lambda>s gtf_weak gtf_strong.
           allocate s (hysteresis_threshold_of P (s ! gtf_weak) (s ! gtf_strong))),
      FT_quantize = (\<lambda>s gtf steps mode. allocate s (quantize_of P (s ! gtf) steps mode)),
      FT_convolve_2d =
        (\<lambda>s gtf gtf_kernel. allocate s (convolve_2d_of P (s ! gtf) (s ! gtf_kernel))),
      FT_gradient_suppression_mask =
        (\<lambda>s gtf_r gtf_theta.
           allocate s (gradient_suppression_mask_of P (s ! gtf_r) (s ! gtf_theta))),
      FT_patch_min = returning_new (patch_min_of P),
      FT_patch_max = returning_new (patch_max_of P),
      FT_patch_median = returning_new (patch_median_of P),
      FT_morphological =
        \<lparr>FT_dilate = returning_new (dilate_of P),
         FT_erode = returning_new (erode_of P),
         FT_open = and_then (returning_new (erode_of P)) (returning_new (dilate_of P)),
         FT_close = and_then (returning_new (dilate_of P)) (returning_new (erode_of P))\<rparr>\<rparr>"

text \<open>
  One such record, for the calls that are evaluated below: the patch minimum and maximum,
  dilate and erode as modelled above, and every other function returning a grid it was
  given.
\<close>

definition example_functions :: pure_library where
  "example_functions =
     \<lparr>invert_of = Inr,
      sum_normalize_of = (\<lambda>g dims. Inr g),
      range_normalize_of = (\<lambda>g dims. Inr g),
      patch_range_normalize_of = (\<lambda>g radius. Inr g),
      otsus_method_of = (\<lambda>g bins. Inr g),
      hysteresis_threshold_of = (\<lambda>weak strong. Inr strong),
      quantize_of = (\<lambda>g steps mode. Inr g),
      convolve_2d_of = (\<lambda>g kernel. Inr g),
      gradient_suppression_mask_of = (\<lambda>r theta. Inr r),
      patch_min_of = erode,
      patch_max_of = dilate,
      patch_median_of = (\<lambda>g radius. Inr g),
      dilate_of = dilate,
      erode_of = erode\<rparr>"

subsection \<open>Invert\<close>

text \<open>
  Modelled from the spec: \<^verbatim>\<open>U.invert\<close> (module \<^verbatim>\<open>gtf_impl.utils\<close>) is not among the
  sources. The specification gives its contract: the output is (max\_val + min\_val) - g, where
  max\_val and min\_val are the global extrema of g.

  The arithmetic is that of floats. On NaN and the infinities it is as IEEE 754 has it: a NaN
  operand gives NaN, and so do the sum of the two infinities and the difference of an
  infinity and itself. On finite values the result is the exact result, rounded: the
  rounding function \<open>rnd\<close> of the format is a parameter. A result too large for the
  format would overflow to an infinity; the model keeps it finite, and what is proved of
  finite grids is proved below a bound up to which \<open>rnd\<close> is accurate, where nothing
  overflows. The extrema are those of torch, where a NaN in the grid is its maximum and its
  minimum. An empty grid has nothing to invert.
\<close>

fun float_add :: "(real \<Rightarrow> real) \<Rightarrow> float \<Rightarrow> float \<Rightarrow> float" where
  "float_add rnd NaN _ = NaN"
| "float_add rnd _ NaN = NaN"
| "float_add rnd PosInf NegInf = NaN"
| "float_add rnd NegInf PosInf = NaN"
| "float_add rnd PosInf _ = PosInf"
| "float_add rnd _ PosInf = PosInf"
| "float_add rnd NegInf _ = NegInf"
| "float_add rnd _ NegInf = NegInf"
| "float_add rnd (Fin x) (Fin y) = Fin (rnd (x + y))"

fun float_sub :: "(real \<Rightarrow> real) \<Rightarrow> float \<Rightarrow> float \<Rightarrow> float" where
  "float_sub rnd NaN _ = NaN"
| "float_sub rnd _ NaN = NaN"
| "float_sub rnd PosInf PosInf = NaN"
| "float_sub rnd NegInf NegInf = NaN"
| "float_sub rnd PosInf _ = PosInf"
| "float_sub rnd NegInf _ = NegInf"
| "float_sub rnd _ PosInf = NegInf"
| "float_sub rnd _ NegInf = PosInf"
| "float_sub rnd (Fin x) (Fin y) = Fin (rnd (x - y))"

definition invert :: "(real \<Rightarrow> real) \<Rightarrow> float tensor \<Rightarrow> float tensor" where
  "invert rnd g =
     (case data g of
        [] \<Rightarrow> g
      | x # xs \<Rightarrow>
          (let max_val = fold float_max xs x; min_val = fold float_min xs x
           in \<lparr>shape = shape g,
                data = map (\<lambda>v. float_sub rnd (float_add rnd max_val min_val) v) (data g)\<rparr>))"

text \<open>
  A rounding function is accurate to \<open>\<delta>\<close> up to the bound \<open>B\<close> when it moves no value of
  magnitude at most \<open>B\<close> by more than \<open>\<delta>\<close>: below the bound there is no overflow, and the
  spacing of the floats there is at most twice \<open>\<delta>\<close>. Rounding to the nearest integer is one
  such function, accurate to 1/2 everywhere.
\<close>

definition rounds_within :: "(real \<Rightarrow> real) \<Rightarrow> real \<Rightarrow> real \<Rightarrow> bool" where
  "rounds_within rnd B \<delta> = (\<forall>x. \<bar>x\<bar> \<le> B \<longrightarrow> \<bar>rnd x - x\<bar> \<le> \<delta>)"

definition nearest_integer :: "real \<Rightarrow> real" where
  "nearest_integer x = of_int (round x)"

text \<open>
  The contract on the finite values of a grid: the sum of the extrema, rounded, minus each
  value, rounded.
\<close>

definition invert_values :: "(real \<Rightarrow> real) \<Rightarrow> real list \<Rightarrow> real list" where
  "invert_values rnd xs = map (\<lambda>x. rnd (rnd (Max (set xs) + Min (set xs)) - x)) xs"

subsection \<open>Hysteresis threshold\<close>

text \<open>
  Modelled from the spec: \<^verbatim>\<open>FT.hysteresis_threshold\<close> is not among the sources. The
  specification: both inputs are binary (0/1) masks of identical shape; the filter is an
  iterative flood fill from the strong seeds, expanding through weak pixels, converging when
  no new pixel is added in a pass. The specification leaves the connectivity (4 or 8) to the
  implementer, so it is a parameter; pixels are adjacent within one channel of one image.
\<close>

datatype connectivity = Four | Eight

fun adjacent :: "connectivity \<Rightarrow> nat list \<Rightarrow> nat list \<Rightarrow> bool" where
  "adjacent k [n, c, h, w] [n', c', h', w'] =
     (n = n' \<and> c = c' \<and>
      (let dh = \<bar>int h - int h'\<bar>; dw = \<bar>int w - int w'\<bar>
       in case k of Four \<Rightarrow> dh + dw = 1 | Eight \<Rightarrow> max dh dw = 1))"
| "adjacent _ _ _ = False"

text \<open>
  One pass over the pixels: a pixel is in the result when it is in the current set, or is
  weak and adjacent to a pixel of the current set.
\<close>

definition grow :: "'a list \<Rightarrow> ('a \<Rightarrow> 'a \<Rightarrow> bool) \<Rightarrow> ('a \<Rightarrow> bool) \<Rightarrow> 'a list \<Rightarrow> 'a list" where
  "grow ps adj weak cur = filter (\<lambda>p. p \<in> set cur \<or> (weak p \<and> (\<exists>q \<in> set cur. adj q p))) ps"

text \<open>Passes are repeated until one adds no pixel.\<close>

function flood :: "'a list \<Rightarrow> ('a \<Rightarrow> 'a \<Rightarrow> bool) \<Rightarrow> ('a \<Rightarrow> bool) \<Rightarrow> 'a list \<Rightarrow> 'a list" where
  "flood ps adj weak cur =
     (let nxt = grow ps adj weak cur
      in if length cur < length nxt then flood ps adj weak nxt else cur)"
  by pat_completeness auto
termination
proof (relation "measure (\<lambda>(ps, adj, weak, cur). length ps - length cur)")
  show "wf (measure (\<lambda>(ps, adj, weak, cur). length ps - length cur))"
    by simp
next
  fix ps :: "'a list" and adj weak cur nxt
  assume nxt: "nxt = grow ps adj weak cur" and less: "length cur < length nxt"
  have "length nxt \<le> length ps"
    unfolding nxt grow_def by (rule length_filter_le)
  with less show "((ps, adj, weak, nxt), (ps, adj, weak, cur))
      \<in> measure (\<lambda>(ps, adj, weak, cur). length ps - length cur)"
    by simp
qed

declare flood.simps [simp del]

text \<open>A pixel of a mask is set when its value is 1.0.\<close>

definition mask_on :: "float tensor \<Rightarrow> nat list \<Rightarrow> bool" where
  "mask_on m p = (bget m p = Fin 1)"

definition binary_mask :: "float tensor \<Rightarrow> bool" where
  "binary_mask m = (wf_tensor m \<and> list_all (\<lambda>x. x = Fin 0 \<or> x = Fin 1) (data m))"

definition hysteresis_threshold ::
    "connectivity \<Rightarrow> float tensor \<Rightarrow> float tensor \<Rightarrow> error + float tensor" where
  "hysteresis_threshold k weak_mask strong_mask =
     (if shape weak_mask \<noteq> shape strong_mask then Inl ShapeMismatch
      else
        (let ps = all_indices (shape weak_mask);
             kept = flood ps (adjacent k) (mask_on weak_mask) (filter (mask_on strong_mask) ps)
         in Inr \<lparr>shape = shape weak_mask,
                 data = map (\<lambda>p. if p \<in> set kept then Fin 1 else Fin 0) ps\<rparr>))"

text \<open>
  The output as the specification describes it. A pixel is connected to a strong pixel when
  a path leads to it from a strong pixel through weak pixels only: each pixel of the path is
  weak and adjacent to the one before, the first to the strong pixel, and the path ends at
  the pixel itself.
\<close>

fun path_from :: "('a \<Rightarrow> 'a \<Rightarrow> bool) \<Rightarrow> 'a \<Rightarrow> 'a list \<Rightarrow> bool" where
  "path_from adj s [] = True"
| "path_from adj s (p # ps) = (adj s p \<and> path_from adj p ps)"

definition connected_to_strong ::
    "'a set \<Rightarrow> ('a \<Rightarrow> 'a \<Rightarrow> bool) \<Rightarrow> ('a \<Rightarrow> bool) \<Rightarrow> ('a \<Rightarrow> bool) \<Rightarrow> 'a \<Rightarrow> bool" where
  "connected_to_strong P adj weak strong p =
     (\<exists>s path. s \<in> P \<and> strong s \<and> path \<noteq> [] \<and> set path \<subseteq> P \<and> (\<forall>q \<in> set path. weak q) \<and>
        path_from adj s path \<and> last path = p)"

text \<open>The strong pixels and the pixels connected to one, built up pixel by pixel.\<close>

inductive_set linked ::
    "'a set \<Rightarrow> ('a \<Rightarrow> 'a \<Rightarrow> bool) \<Rightarrow> ('a \<Rightarrow> bool) \<Rightarrow> ('a \<Rightarrow> bool) \<Rightarrow> 'a set"
  for P :: "'a set" and adj :: "'a \<Rightarrow> 'a \<Rightarrow> bool" and weak :: "'a \<Rightarrow> bool" and strong :: "'a \<Rightarrow> bool"
where
  seed: "p \<in> P \<Longrightarrow> strong p \<Longrightarrow> p \<in> linked P adj weak strong"
| step: "q \<in> linked P adj weak strong \<Longrightarrow> p \<in> P \<Longrightarrow> weak p \<Longrightarrow> adj q p
         \<Longrightarrow> p \<in> linked P adj weak strong"

section \<open>Properties\<close>

subsection \<open>Indices\<close>

text \<open>
  Row-major order: the offsets of the indices of a shape, in the order of the indices, are
  0, 1, 2, ... So an index is found at its offset, no two indices are equal, and a tensor
  tabulated over the indices of its shape is read back at an index as the value there.
\<close>

lemma concat_blocks:
  "concat (map (\<lambda>i. map (\<lambda>k. i * p + k) [0..<p]) [0..<d]) = [0..<d * p]"
proof (induction d)
  case 0
  show ?case by simp
next
  case (Suc d)
  let ?block = "\<lambda>i. map (\<lambda>k. i * p + k) [0..<p]"
  have block: "?block d = [d * p..<d * p + p]"
    using map_add_upt [of "d * p" p] by (simp add: add.commute)
  have split: "[0..<d * p + p] = [0..<d * p] @ [d * p..<d * p + p]"
    by (rule upt_add_eq_append) simp
  have "concat (map ?block [0..<Suc d]) = concat (map ?block [0..<d]) @ ?block d"
    by simp
  also have "\<dots> = [0..<d * p] @ [d * p..<d * p + p]"
    by (simp only: Suc.IH block)
  also have "\<dots> = [0..<d * p + p]"
    by (simp only: split)
  also have "d * p + p = Suc d * p"
    by simp
  finally show ?case .
qed

lemma offset_all_indices:
  "map (offset s) (all_indices s) = [0..<prod_list s]"
proof (induction s)
  case Nil
  show ?case by simp
next
  case (Cons d ds)
  have "map (offset (d # ds)) (all_indices (d # ds)) =
        concat (map (\<lambda>i. map (\<lambda>is. (if d = 1 then 0 else i) * prod_list ds + offset ds is) (all_indices ds)) [0..<d])"
    by (simp add: map_concat comp_def)
  also have "\<dots> = concat (map (\<lambda>i. map (\<lambda>is. i * prod_list ds + offset ds is) (all_indices ds)) [0..<d])"
    by (rule arg_cong [where f = concat], rule map_cong) auto
  also have "\<dots> = concat (map (\<lambda>i. map (\<lambda>k. i * prod_list ds + k) (map (offset ds) (all_indices ds))) [0..<d])"
    by (simp add: comp_def)
  also have "\<dots> = [0..<d * prod_list ds]"
    by (simp only: Cons.IH concat_blocks)
  finally show ?case by simp
qed

lemma length_all_indices: "length (all_indices s) = prod_list s"
  using arg_cong [OF offset_all_indices, of length s] by simp

lemma distinct_all_indices: "distinct (all_indices s)"
proof -
  have "distinct (map (offset s) (all_indices s))"
    by (simp add: offset_all_indices)
  then show ?thesis by (rule distinct_map [THEN iffD1, THEN conjunct1])
qed

lemma all_indices_nth_offset:
  assumes "idx \<in> set (all_indices s)"
  shows "offset s idx < prod_list s" and "all_indices s ! offset s idx = idx"
proof -
  from assms obtain j where j: "j < length (all_indices s)" "all_indices s ! j = idx"
    by (auto simp: in_set_conv_nth)
  have "map (offset s) (all_indices s) ! j = [0..<prod_list s] ! j"
    by (simp only: offset_all_indices)
  with j have "offset s idx = j"
    by (simp add: length_all_indices)
  with j show "offset s idx < prod_list s" and "all_indices s ! offset s idx = idx"
    by (simp_all add: length_all_indices)
qed

lemma length_index: "idx \<in> set (all_indices s) \<Longrightarrow> length idx = length s"
  by (induction s arbitrary: idx) auto

lemma pad_shape_same: "pad_shape (length s) s = s"
  by (simp add: pad_shape_def)

lemma prod_list_pad_shape: "prod_list (pad_shape n s) = prod_list s"
  by (simp add: pad_shape_def)

lemma length_pad_shape: "length (pad_shape n s) = max n (length s)"
  by (simp add: pad_shape_def)

lemma bget_tabulated:
  assumes "idx \<in> set (all_indices s)"
  shows "bget \<lparr>shape = s, data = map F (all_indices s)\<rparr> idx = F idx"
proof -
  from assms have len: "length idx = length s" by (rule length_index)
  from assms have "offset s idx < length (all_indices s)" "all_indices s ! offset s idx = idx"
    by (simp_all add: all_indices_nth_offset length_all_indices)
  then show ?thesis
    by (simp add: bget_def len pad_shape_same)
qed

lemma BinaryThreshold_f_result:
  assumes "broadcast_shapes (shape g) (shape t) = Inr s"
  shows "BinaryThreshold_f g t =
     Inr \<lparr>shape = s,
          data = map (\<lambda>idx. if float_ge (bget g idx) (bget t idx) then Fin 1 else Fin 0)
                   (all_indices s)\<rparr>"
  using assms by (simp add: BinaryThreshold_f_def torch_ge_def to_float_def comp_def)

text \<open>
  Reads of well-formed tensors stay in range: at every index of the shape two tensors
  broadcast to, each tensor is read inside its data.
\<close>

lemma broadcast_dims_in_range:
  assumes "broadcast_dims a b = Inr s" and "idx \<in> set (all_indices s)"
  shows "offset a idx < prod_list a \<and> offset b idx < prod_list b"
  using assms
proof (induction a b arbitrary: s idx rule: broadcast_dims.induct)
  case 1
  then show ?case by simp
next
  case (2 a as b bs)
  from "2.prems"(1) obtain ds where ds: "broadcast_dims as bs = Inr ds"
    and s: "s = (if a = 1 then b else a) # ds" and ab: "a = b \<or> b = 1 \<or> a = 1"
    by (auto split: if_splits sum.splits)
  from "2.prems"(2) s obtain i js where idx: "idx = i # js"
    and i: "i < (if a = 1 then b else a)" and js: "js \<in> set (all_indices ds)"
    by auto
  from "2.IH" [OF ab ds js] have IH: "offset as js < prod_list as" "offset bs js < prod_list bs"
    by simp_all
  have step: "k * p + r < d * p" if "k < d" "r < p" for k p r d :: nat
  proof -
    from that have "k * p + r < k * p + p" by simp
    also have "\<dots> = Suc k * p" by simp
    also from that have "\<dots> \<le> d * p" by (intro mult_le_mono1) simp
    finally show ?thesis .
  qed
  have "offset (a # as) idx < prod_list (a # as)"
  proof (cases "a = 1")
    case True
    with IH idx show ?thesis by simp
  next
    case False
    with i have "i < a" by simp
    with False IH idx show ?thesis by (simp add: step)
  qed
  moreover have "offset (b # bs) idx < prod_list (b # bs)"
  proof (cases "b = 1")
    case True
    with IH idx show ?thesis by simp
  next
    case False
    with i ab have "i < b" by (auto split: if_splits)
    with False IH idx show ?thesis by (simp add: step)
  qed
  ultimately show ?case by simp
qed simp_all

lemma broadcast_dims_length:
  "broadcast_dims a b = Inr s \<Longrightarrow> length a = length s \<and> length b = length s"
  by (induction a b arbitrary: s rule: broadcast_dims.induct)
     (auto split: if_splits sum.splits)

lemma broadcast_reads_in_range:
  assumes "broadcast_shapes (shape g) (shape t) = Inr s"
    and "idx \<in> set (all_indices s)" and "wf_tensor g" and "wf_tensor t"
  shows "offset (pad_shape (length idx) (shape g)) idx < length (data g)"
    and "offset (pad_shape (length idx) (shape t)) idx < length (data t)"
proof -
  let ?n = "max (length (shape g)) (length (shape t))"
  from assms(1) have dims: "broadcast_dims (pad_shape ?n (shape g)) (pad_shape ?n (shape t)) = Inr s"
    by (simp add: broadcast_shapes_def Let_def)
  from broadcast_dims_length [OF dims] have "length s = ?n"
    by (simp add: length_pad_shape)
  with assms(2) have n: "length idx = ?n"
    by (simp add: length_index)
  from broadcast_dims_in_range [OF dims assms(2)] assms(3,4)
  show "offset (pad_shape (length idx) (shape g)) idx < length (data g)"
    and "offset (pad_shape (length idx) (shape t)) idx < length (data t)"
    by (simp_all add: n prod_list_pad_shape wf_tensor_def)
qed

subsection \<open>Binary threshold\<close>

text \<open>
  C3. When the threshold grid broadcasts against the grid, binary\_threshold returns a grid
  of the broadcast shape whose element at every index is exactly 1.0 where g >= t there and
  exactly 0.0 elsewhere; every element of the output is 0.0 or 1.0.
\<close>

theorem binary_threshold_elementwise:
  assumes "broadcast_shapes (shape g) (shape t) = Inr s"
  shows "\<exists>out. BinaryThreshold_f g t = Inr out \<and> shape out = s \<and> wf_tensor out
           \<and> (\<forall>idx \<in> set (all_indices s).
                 bget out idx = (if float_ge (bget g idx) (bget t idx) then Fin 1 else Fin 0))
           \<and> (\<forall>x \<in> set (data out). x = Fin 0 \<or> x = Fin 1)"
proof -
  let ?F = "\<lambda>idx. if float_ge (bget g idx) (bget t idx) then Fin 1 else Fin 0"
  let ?out = "\<lparr>shape = s, data = map ?F (all_indices s)\<rparr>"
  have "BinaryThreshold_f g t = Inr ?out"
    using assms by (rule BinaryThreshold_f_result)
  moreover have "shape ?out = s" by simp
  moreover have "wf_tensor ?out" by (simp add: wf_tensor_def length_all_indices)
  moreover have "\<forall>idx \<in> set (all_indices s). bget ?out idx = ?F idx"
    by (simp add: bget_tabulated)
  moreover have "\<forall>x \<in> set (data ?out). x = Fin 0 \<or> x = Fin 1" by auto
  ultimately show ?thesis by blast
qed

lemma broadcast_example: "broadcast_shapes [1, 1, 1, 3] [1] = Inr [1, 1, 1, 3]"
  by (simp add: broadcast_shapes_def pad_shape_def eval_nat_numeral)

lemma index_example: "[0, 0, 0, 1] \<in> set (all_indices [1, 1, 1, 3])"
  by (simp add: upt_rec)

theorem binary_threshold_elementwise_witness:
  "broadcast_shapes (shape \<lparr>shape = [1, 1, 1, 3], data = [Fin 1, Fin 5, Fin 2]\<rparr>)
                    (shape \<lparr>shape = [1], data = [Fin 2]\<rparr>) = Inr [1, 1, 1, 3]
   \<and> [0, 0, 0, 1] \<in> set (all_indices [1, 1, 1, 3])
   \<and> (\<exists>out. BinaryThreshold_f \<lparr>shape = [1, 1, 1, 3], data = [Fin 1, Fin 5, Fin 2]\<rparr>
                                \<lparr>shape = [1], data = [Fin 2]\<rparr> = Inr out
             \<and> shape out = [1, 1, 1, 3] \<and> bget out [0, 0, 0, 1] = Fin 1 \<and> bget out [0, 0, 0, 0] = Fin 0)"
  (is "broadcast_shapes (shape ?g) (shape ?t) = _ \<and> _ \<and> _")
proof -
  have b: "broadcast_shapes (shape ?g) (shape ?t) = Inr [1, 1, 1, 3]"
    by (simp add: broadcast_example [simplified])
  have i0: "[0, 0, 0, 0] \<in> set (all_indices [1, 1, 1, 3])"
    by (simp add: upt_rec)
  have v1: "(if float_ge (bget ?g [0, 0, 0, 1]) (bget ?t [0, 0, 0, 1]) then Fin 1 else Fin 0) = Fin 1"
    by (simp add: bget_def pad_shape_def)
  have v0: "(if float_ge (bget ?g [0, 0, 0, 0]) (bget ?t [0, 0, 0, 0]) then Fin 1 else Fin 0) = Fin 0"
    by (simp add: bget_def pad_shape_def)
  from binary_threshold_elementwise [OF b] obtain out where
    out: "BinaryThreshold_f ?g ?t = Inr out" "shape out = [1, 1, 1, 3]"
      "\<forall>idx \<in> set (all_indices [1, 1, 1, 3]).
         bget out idx = (if float_ge (bget ?g idx) (bget ?t idx) then Fin 1 else Fin 0)"
    by blast
  from out(3) index_example v1 have "bget out [0, 0, 0, 1] = Fin 1" by metis
  moreover from out(3) i0 v0 have "bget out [0, 0, 0, 0] = Fin 0" by metis
  ultimately show ?thesis using b index_example out(1,2) by blast
qed

lemma float_ge_refl: "float_ge x x \<longleftrightarrow> x \<noteq> NaN"
  by (cases x) simp_all

lemma broadcast_dims_same: "broadcast_dims s s = Inr s"
  by (induction s) simp_all

lemma broadcast_shapes_same: "broadcast_shapes s s = Inr s"
  by (simp add: broadcast_shapes_def pad_shape_same broadcast_dims_same)

lemma bget_all_indices:
  assumes "wf_tensor g"
  shows "map (bget g) (all_indices (shape g)) = data g"
proof -
  have "map (bget g) (all_indices (shape g)) =
        map (\<lambda>idx. data g ! offset (shape g) idx) (all_indices (shape g))"
    by (rule map_cong) (simp_all add: bget_def length_index pad_shape_same)
  also have "\<dots> = map ((!) (data g)) (map (offset (shape g)) (all_indices (shape g)))"
    by (simp add: comp_def)
  also have "\<dots> = map ((!) (data g)) [0..<length (data g)]"
    using assms by (simp only: offset_all_indices wf_tensor_def)
  also have "\<dots> = data g" by (rule map_nth)
  finally show ?thesis .
qed

text \<open>
  C4, as the code has it. Thresholding a well-formed grid against itself gives the grid of
  ones of the same shape, when no element of the grid is NaN.
\<close>

theorem self_threshold_without_nan:
  assumes "wf_tensor g" and "NaN \<notin> set (data g)"
  shows "BinaryThreshold_f g g = Inr \<lparr>shape = shape g, data = replicate (length (data g)) (Fin 1)\<rparr>"
proof -
  let ?one = "\<lambda>x. if float_ge x x then Fin 1 else Fin 0"
  have "map (\<lambda>idx. ?one (bget g idx)) (all_indices (shape g)) = map ?one (map (bget g) (all_indices (shape g)))"
    by (simp add: comp_def)
  also have "\<dots> = map ?one (data g)"
    using assms(1) by (simp only: bget_all_indices)
  also have "\<dots> = map (\<lambda>x. Fin 1) (data g)"
    using assms(2) by (intro map_cong) (auto simp: float_ge_refl)
  also have "\<dots> = replicate (length (data g)) (Fin 1)"
    by (simp add: map_replicate_const)
  finally show ?thesis
    by (simp add: BinaryThreshold_f_result [OF broadcast_shapes_same])
qed

theorem self_threshold_without_nan_witness:
  "wf_tensor \<lparr>shape = [1, 1, 1, 2], data = [Fin 3, NegInf]\<rparr>
   \<and> NaN \<notin> set (data \<lparr>shape = [1, 1, 1, 2], data = [Fin 3, NegInf]\<rparr>)
   \<and> BinaryThreshold_f \<lparr>shape = [1, 1, 1, 2], data = [Fin 3, NegInf]\<rparr>
                        \<lparr>shape = [1, 1, 1, 2], data = [Fin 3, NegInf]\<rparr>
       = Inr \<lparr>shape = [1, 1, 1, 2], data = [Fin 1, Fin 1]\<rparr>"
  using self_threshold_without_nan [of "\<lparr>shape = [1, 1, 1, 2], data = [Fin 3, NegInf]\<rparr>"]
  by (simp add: wf_tensor_def eval_nat_numeral)

text \<open>
  C4 as stated fails on a grid that holds a NaN: NaN >= NaN is false, and the output
  there is 0.0.
\<close>

theorem self_threshold_nan:
  "BinaryThreshold_f \<lparr>shape = [1, 1, 1, 1], data = [NaN]\<rparr> \<lparr>shape = [1, 1, 1, 1], data = [NaN]\<rparr>
     = Inr \<lparr>shape = [1, 1, 1, 1], data = [Fin 0]\<rparr>"
  by (simp add: BinaryThreshold_f_result [OF broadcast_shapes_same] bget_def pad_shape_def)

text \<open>
  C10. Where the grid holds a NaN, the output of binary\_threshold is exactly 0.0, whatever
  the threshold there (the grid itself included).
\<close>

theorem nan_thresholds_to_zero:
  assumes "broadcast_shapes (shape g) (shape t) = Inr s"
    and "idx \<in> set (all_indices s)"
    and "bget g idx = NaN"
  shows "\<exists>out. BinaryThreshold_f g t = Inr out \<and> bget out idx = Fin 0"
  using assms by (simp add: BinaryThreshold_f_result bget_tabulated)

theorem nan_thresholds_to_zero_witness:
  "broadcast_shapes (shape \<lparr>shape = [1, 1, 1, 3], data = [Fin 1, NaN, Fin 2]\<rparr>)
                    (shape \<lparr>shape = [1], data = [NegInf]\<rparr>) = Inr [1, 1, 1, 3]
   \<and> [0, 0, 0, 1] \<in> set (all_indices [1, 1, 1, 3])
   \<and> bget \<lparr>shape = [1, 1, 1, 3], data = [Fin 1, NaN, Fin 2]\<rparr> [0, 0, 0, 1] = NaN
   \<and> (\<exists>out. BinaryThreshold_f \<lparr>shape = [1, 1, 1, 3], data = [Fin 1, NaN, Fin 2]\<rparr>
                                \<lparr>shape = [1], data = [NegInf]\<rparr> = Inr out
             \<and> bget out [0, 0, 0, 1] = Fin 0)"
  (is "broadcast_shapes (shape ?g) (shape ?t) = _ \<and> _ \<and> _ \<and> _")
proof -
  have b: "broadcast_shapes (shape ?g) (shape ?t) = Inr [1, 1, 1, 3]"
    by (simp add: broadcast_example [simplified])
  have n: "bget ?g [0, 0, 0, 1] = NaN"
    by (simp add: bget_def pad_shape_def)
  from nan_thresholds_to_zero [OF b index_example n] b index_example n
  show ?thesis by blast
qed

subsection \<open>The morphological filter\<close>

text \<open>
  C1. With radius 0 the morphological filter returns its input: the very reference it was
  given, in the store as it was, whatever the operation and whatever the primitives are. No
  primitive runs, so the grid comes back as it is, element for element, NaN included.
\<close>

theorem radius_zero_identity:
  "MorphologicalFilter_f FT s gtf operation 0 = Inr (s, gtf)"
  by (simp add: MorphologicalFilter_f_def)

text \<open>
  C2, as the code has it. With a nonzero radius and an operation that is none of dilate,
  erode, open and close, the filter fails, with the UnboundLocalError of the variable
  \<^verbatim>\<open>filtered\<close>: not an InvalidArgument, and the error does not name the allowed
  operations.
\<close>

theorem unknown_operation_unbound_local:
  assumes "radius \<noteq> 0"
    and "operation \<notin> {''dilate'', ''erode'', ''open'', ''close''}"
  shows "MorphologicalFilter_f FT s gtf operation radius = Inl (UnboundLocalError ''filtered'')
       \<and> \<not> is_InvalidArgument (MorphologicalFilter_f FT s gtf operation radius)"
  using assms by (simp add: MorphologicalFilter_f_def)

theorem unknown_operation_unbound_local_witness:
  "(1::int) \<noteq> 0 \<and> ''blur'' \<notin> {''dilate'', ''erode'', ''open'', ''close''}
   \<and> MorphologicalFilter_f FT_spec [\<lparr>shape = [1, 1, 1, 1], data = [Fin 0]\<rparr>] 0 ''blur'' 1
       = Inl (UnboundLocalError ''filtered'')"
  using unknown_operation_unbound_local
          [of 1 "''blur''" FT_spec "[\<lparr>shape = [1, 1, 1, 1], data = [Fin 0]\<rparr>]" 0]
  by simp

text \<open>
  C2 as stated fails: the operation blur with radius 1 gives the UnboundLocalError, which is
  not an InvalidArgument.
\<close>

theorem unknown_operation_not_invalid_argument:
  "MorphologicalFilter_f FT_spec [\<lparr>shape = [1, 1, 1, 1], data = [Fin 0]\<rparr>] 0 ''blur'' 1
     = Inl (UnboundLocalError ''filtered'')
   \<and> \<not> is_InvalidArgument
       (MorphologicalFilter_f FT_spec [\<lparr>shape = [1, 1, 1, 1], data = [Fin 0]\<rparr>] 0 ''blur'' 1)"
  by (simp add: MorphologicalFilter_f_def)

text \<open>
  C7. With a radius of at least 1, the operation open is erode followed by dilate on its
  result, and close is dilate followed by erode on its result, with the same radius and with
  the same failures.
\<close>

theorem open_close_composition:
  assumes "1 \<le> r"
  shows "MorphologicalFilter_f FT_spec s g ''open'' r =
           (case MorphologicalFilter_f FT_spec s g ''erode'' r of
              Inl e \<Rightarrow> Inl e
            | Inr (s', eroded) \<Rightarrow> MorphologicalFilter_f FT_spec s' eroded ''dilate'' r)
       \<and> MorphologicalFilter_f FT_spec s g ''close'' r =
           (case MorphologicalFilter_f FT_spec s g ''dilate'' r of
              Inl e \<Rightarrow> Inl e
            | Inr (s', dilated) \<Rightarrow> MorphologicalFilter_f FT_spec s' dilated ''erode'' r)"
  using assms
  by (simp add: MorphologicalFilter_f_def FT_spec_def and_then_def split: sum.splits)

text \<open>The operations on a row of two pixels, 5 and 1, with radius 1.\<close>

lemma window_examples:
  "window (Suc 0) (Suc 0) 0 = [0, 0, 0]"
  "window (Suc 0) 2 0 = [0, 0, 1]"
  "window (Suc 0) 2 (Suc 0) = [0, 1, 1]"
  by (simp_all add: window_def clamp_index_def upt_rec)

lemma erode_example:
  "erode \<lparr>shape = [1, 1, 1, 2], data = [Fin 5, Fin 1]\<rparr> 1
     = Inr \<lparr>shape = [1, 1, 1, 2], data = [Fin 1, Fin 1]\<rparr>"
  by (simp add: erode_def patch_stat_def window_examples bget_def pad_shape_def float_min_def
      upt_rec)

lemma dilate_example:
  "dilate \<lparr>shape = [1, 1, 1, 2], data = [Fin 1, Fin 1]\<rparr> 1
     = Inr \<lparr>shape = [1, 1, 1, 2], data = [Fin 1, Fin 1]\<rparr>"
  by (simp add: dilate_def patch_stat_def window_examples bget_def pad_shape_def float_max_def
      upt_rec)

theorem open_close_composition_witness:
  "(1::int) \<le> 1
   \<and> MorphologicalFilter_f FT_spec [\<lparr>shape = [1, 1, 1, 2], data = [Fin 5, Fin 1]\<rparr>] 0 ''open'' 1
       = Inr ([\<lparr>shape = [1, 1, 1, 2], data = [Fin 5, Fin 1]\<rparr>,
               \<lparr>shape = [1, 1, 1, 2], data = [Fin 1, Fin 1]\<rparr>,
               \<lparr>shape = [1, 1, 1, 2], data = [Fin 1, Fin 1]\<rparr>], 2)"
  (is "_ \<and> MorphologicalFilter_f _ [?G] _ _ _ = Inr ([_, ?E, _], _)")
proof -
  have eroded: "MorphologicalFilter_f FT_spec [?G] 0 ''erode'' 1 = Inr ([?G, ?E], 1)"
    by (simp add: MorphologicalFilter_f_def FT_spec_def returning_new_def
        erode_example [simplified])
  have dilated: "MorphologicalFilter_f FT_spec [?G, ?E] 1 ''dilate'' 1 = Inr ([?G, ?E, ?E], 2)"
    by (simp add: MorphologicalFilter_f_def FT_spec_def returning_new_def
        dilate_example [simplified])
  have le: "(1::int) \<le> 1" by simp
  note composed = open_close_composition [OF le, of "[?G]" 0, THEN conjunct1]
  have "MorphologicalFilter_f FT_spec [?G] 0 ''open'' 1 = Inr ([?G, ?E, ?E], 2)"
    by (simp only: composed eroded sum.case prod.case dilated)
  with le show ?thesis by (rule conjI)
qed

text \<open>Primitives that allocate their result, alone and one after the other.\<close>

lemma allocating_returning_new: "allocating (returning_new f)"
  unfolding allocating_def
proof (intro allI)
  fix s r radius
  show "newly_allocated s (returning_new f s r radius) \<and> unmutated s (returning_new f s r radius)"
    by (cases "f (s ! r) radius") (simp_all add: returning_new_def newly_allocated_def unmutated_def)
qed

lemma allocating_and_then:
  assumes "allocating p" and "allocating q"
  shows "allocating (and_then p q)"
  unfolding allocating_def
proof (intro allI)
  fix s r radius
  show "newly_allocated s (and_then p q s r radius) \<and> unmutated s (and_then p q s r radius)"
  proof (cases "p s r radius")
    case (Inl e)
    then show ?thesis by (simp add: and_then_def newly_allocated_def unmutated_def)
  next
    case (Inr sr)
    obtain s' r' where sr: "sr = (s', r')" by (cases sr)
    from assms(1) have "newly_allocated s (p s r radius)" "unmutated s (p s r radius)"
      by (simp_all add: allocating_def)
    with Inr sr have p: "length s \<le> r'" "r' < length s'" "take (length s) s' = s"
      by (simp_all add: newly_allocated_def unmutated_def)
    show ?thesis
    proof (cases "q s' r' radius")
      case (Inl e)
      with Inr sr show ?thesis by (simp add: and_then_def newly_allocated_def unmutated_def)
    next
      case inr: (Inr tr)
      obtain s'' r'' where tr: "tr = (s'', r'')" by (cases tr)
      from assms(2) have "newly_allocated s' (q s' r' radius)" "unmutated s' (q s' r' radius)"
        by (simp_all add: allocating_def)
      with inr tr have q: "length s' \<le> r''" "r'' < length s''" "take (length s') s'' = s'"
        by (simp_all add: newly_allocated_def unmutated_def)
      from p q have le: "length s \<le> length s'" by simp
      then have "take (length s) s'' = take (length s) (take (length s') s'')"
        by (simp add: min_absorb1)
      with p q have "take (length s) s'' = s" by simp
      with p q le Inr sr inr tr show ?thesis
        by (simp add: and_then_def newly_allocated_def unmutated_def)
    qed
  qed
qed

lemma allocating_FT_spec:
  "allocating (FT_dilate FT_spec)" "allocating (FT_erode FT_spec)"
  "allocating (FT_open FT_spec)" "allocating (FT_close FT_spec)"
  by (simp_all add: FT_spec_def allocating_returning_new allocating_and_then)

text \<open>
  What the nodes return, with the library on the store: a function of the library allocates
  its result, and so does the comparison of BinaryThreshold.
\<close>

lemma allocate_new: "newly_allocated s (allocate s res)" "unmutated s (allocate s res)"
  by (cases res; simp add: allocate_def newly_allocated_def unmutated_def)+

lemma returning_new_new:
  "newly_allocated s (returning_new f s r radius)" "unmutated s (returning_new f s r radius)"
  using allocating_returning_new [of f] by (simp_all add: allocating_def)

lemma and_then_new:
  "newly_allocated s (and_then (returning_new f) (returning_new g) s r radius)"
  "unmutated s (and_then (returning_new f) (returning_new g) s r radius)"
  using allocating_and_then [OF allocating_returning_new allocating_returning_new, of f g]
  by (simp_all add: allocating_def)

lemma BinaryThreshold_f_in_store_new:
  "newly_allocated s (BinaryThreshold_f_in_store s gtf gtf_threshold)"
  "unmutated s (BinaryThreshold_f_in_store s gtf gtf_threshold)"
  by (cases "BinaryThreshold_f (s ! gtf) (s ! gtf_threshold)";
      simp add: BinaryThreshold_f_in_store_def newly_allocated_def unmutated_def)+

lemma nothing_returned:
  "newly_allocated s (Inl e)" "unmutated s (Inl e)" "unmutated s (Inr (s, r))"
  by (simp_all add: newly_allocated_def unmutated_def)

lemma MorphologicalFilter_f_new:
  "newly_allocated s (MorphologicalFilter_f (FT_morphological (library_of P)) s gtf operation radius)
     \<or> radius = 0"
  "unmutated s (MorphologicalFilter_f (FT_morphological (library_of P)) s gtf operation radius)"
  by (simp_all add: MorphologicalFilter_f_def library_of_def returning_new_new and_then_new
      nothing_returned)

lemma run_node_new:
  "\<not> short_circuit c \<Longrightarrow> newly_allocated s (run_node (library_of P) s c)"
proof (cases c)
  case (MorphologicalFilter_call gtf operation radius)
  then show "\<not> short_circuit c \<Longrightarrow> newly_allocated s (run_node (library_of P) s c)"
    using MorphologicalFilter_f_new(1) [of s P gtf operation radius] by simp
qed (simp_all add: Invert_f_def SumNormalize_f_def RangeNormalize_f_def PatchRangeNormalize_f_def
       OtsusMethod_f_def HysteresisThreshold_f_def Quantize_f_def Convolve_f_def
       GradientNMSMask_f_def MinFilter_f_def MaxFilter_f_def MedianFilter_f_def library_of_def
       allocate_new returning_new_new BinaryThreshold_f_in_store_new)

lemma run_node_unmutated: "unmutated s (run_node (library_of P) s c)"
proof (cases c)
  case (MorphologicalFilter_call gtf operation radius)
  then show ?thesis by (simp add: MorphologicalFilter_f_new(2))
qed (simp_all add: Invert_f_def SumNormalize_f_def RangeNormalize_f_def PatchRangeNormalize_f_def
       OtsusMethod_f_def HysteresisThreshold_f_def Quantize_f_def Convolve_f_def
       GradientNMSMask_f_def MinFilter_f_def MaxFilter_f_def MedianFilter_f_def library_of_def
       allocate_new returning_new_new BinaryThreshold_f_in_store_new)

lemma new_is_distinct:
  assumes "newly_allocated s res" and "list_all (\<lambda>r. r < length s) rs"
  shows "distinct_from rs res"
proof (cases res)
  case (Inl e)
  then show ?thesis by (simp add: distinct_from_def)
next
  case (Inr sr)
  obtain s' r where "sr = (s', r)" by (cases sr)
  with Inr assms show ?thesis
    by (auto simp: distinct_from_def newly_allocated_def list_all_iff)
qed

lemma run_node_short_circuit:
  "short_circuit c \<Longrightarrow> run_node L s c = Inr (s, hd (grid_inputs c))"
  by (cases c) (simp_all add: MorphologicalFilter_f_def)

text \<open>
  C5, as the code has it. Every call of a node, on input grids that exist, leaves every grid
  that exists as it was. Every call but one returns a newly allocated grid, which is none
  of its inputs; the one is the morphological filter with radius 0, which returns its input
  object itself.
\<close>

theorem filters_return_new_grids:
  assumes "list_all (\<lambda>r. r < length s) (grid_inputs c)"
  shows "unmutated s (run_node (library_of P) s c)
       \<and> (\<not> short_circuit c \<longrightarrow>
            newly_allocated s (run_node (library_of P) s c)
            \<and> distinct_from (grid_inputs c) (run_node (library_of P) s c))
       \<and> (short_circuit c \<longrightarrow> run_node (library_of P) s c = Inr (s, hd (grid_inputs c)))"
proof (intro conjI impI)
  show "unmutated s (run_node (library_of P) s c)"
    by (rule run_node_unmutated)
next
  assume "\<not> short_circuit c"
  then show new: "newly_allocated s (run_node (library_of P) s c)"
    by (rule run_node_new)
  from new assms show "distinct_from (grid_inputs c) (run_node (library_of P) s c)"
    by (rule new_is_distinct)
next
  assume "short_circuit c"
  then show "run_node (library_of P) s c = Inr (s, hd (grid_inputs c))"
    by (rule run_node_short_circuit)
qed

theorem filters_return_new_grids_witness:
  "list_all (\<lambda>r. r < length [\<lparr>shape = [1, 1, 1, 1], data = [Fin 0]\<rparr>]) (grid_inputs (MinFilter_call 0 1))
   \<and> \<not> short_circuit (MinFilter_call 0 1)
   \<and> unmutated [\<lparr>shape = [1, 1, 1, 1], data = [Fin 0]\<rparr>] (run_node (library_of example_functions) [\<lparr>shape = [1, 1, 1, 1], data = [Fin 0]\<rparr>] (MinFilter_call 0 1))
   \<and> newly_allocated [\<lparr>shape = [1, 1, 1, 1], data = [Fin 0]\<rparr>] (run_node (library_of example_functions) [\<lparr>shape = [1, 1, 1, 1], data = [Fin 0]\<rparr>] (MinFilter_call 0 1))
   \<and> distinct_from [0] (run_node (library_of example_functions) [\<lparr>shape = [1, 1, 1, 1], data = [Fin 0]\<rparr>] (MinFilter_call 0 1))
   \<and> list_all (\<lambda>r. r < length [\<lparr>shape = [1, 1, 1, 1], data = [Fin 0]\<rparr>]) (grid_inputs (MorphologicalFilter_call 0 ''erode'' 0))
   \<and> short_circuit (MorphologicalFilter_call 0 ''erode'' 0)
   \<and> run_node (library_of example_functions) [\<lparr>shape = [1, 1, 1, 1], data = [Fin 0]\<rparr>] (MorphologicalFilter_call 0 ''erode'' 0)
       = Inr ([\<lparr>shape = [1, 1, 1, 1], data = [Fin 0]\<rparr>], 0)"
  using filters_return_new_grids [of "[\<lparr>shape = [1, 1, 1, 1], data = [Fin 0]\<rparr>]" "MinFilter_call 0 1" example_functions]
        filters_return_new_grids
          [of "[\<lparr>shape = [1, 1, 1, 1], data = [Fin 0]\<rparr>]" "MorphologicalFilter_call 0 ''erode'' 0" example_functions]
  by simp

text \<open>
  C5 as stated fails at radius 0: the object returned is the input object, at the same
  reference, and nothing was allocated.
\<close>

theorem radius_zero_returns_input_object:
  "MorphologicalFilter_f FT_spec [\<lparr>shape = [1, 1, 1, 1], data = [Fin 0]\<rparr>] 0 ''dilate'' 0
     = Inr ([\<lparr>shape = [1, 1, 1, 1], data = [Fin 0]\<rparr>], 0)
   \<and> \<not> newly_allocated [\<lparr>shape = [1, 1, 1, 1], data = [Fin 0]\<rparr>]
         (MorphologicalFilter_f FT_spec [\<lparr>shape = [1, 1, 1, 1], data = [Fin 0]\<rparr>] 0 ''dilate'' 0)"
  by (simp add: MorphologicalFilter_f_def newly_allocated_def)

subsection \<open>The declared radius\<close>

text \<open>
  C6, as the code has it. The four patch filters declare the minimum 0 for the radius and
  accept every radius that is not negative. The morphological filter declares the minimum 1:
  it accepts exactly the radii from 1 on.
\<close>

theorem declared_radius_constraints:
  "(\<forall>n \<in> {PatchRangeNormalize, MinFilter, MaxFilter, MedianFilter}.
      radius_min n = Some 0 \<and> (\<forall>r. 0 \<le> r \<longrightarrow> accepts_radius n r))
   \<and> radius_min MorphologicalFilter = Some 1
   \<and> (\<forall>r. accepts_radius MorphologicalFilter r \<longleftrightarrow> 1 \<le> r)"
  by (simp add: radius_min_def radius_max_def accepts_radius_def
      FilterRadiusBase_INPUT_TYPES_def MorphologicalFilter_INPUT_TYPES_def)

theorem declared_radius_constraints_witness:
  "radius_min MinFilter = Some 0 \<and> accepts_radius MinFilter 0 \<and> accepts_radius MorphologicalFilter 1"
  using declared_radius_constraints by simp

text \<open>
  C6 as stated fails for the morphological filter: its declared minimum is not 0, and the
  radius 0 is rejected.
\<close>

theorem morphological_radius_zero_rejected:
  "radius_min MorphologicalFilter \<noteq> Some 0 \<and> \<not> accepts_radius MorphologicalFilter 0"
  by (simp add: radius_min_def radius_max_def accepts_radius_def MorphologicalFilter_INPUT_TYPES_def)

subsection \<open>Invert\<close>

lemma Max_of_reflected:
  fixes xs :: "'a::linordered_ab_group_add list"
  assumes "xs \<noteq> []"
  shows "Max (set (map (\<lambda>x. c - x) xs)) = c - Min (set xs)"
proof (rule Max_eqI)
  show "finite (set (map (\<lambda>x. c - x) xs))" by simp
next
  fix y assume "y \<in> set (map (\<lambda>x. c - x) xs)"
  then obtain x where "x \<in> set xs" "y = c - x" by auto
  then show "y \<le> c - Min (set xs)" by (simp add: diff_left_mono)
next
  from assms have "Min (set xs) \<in> set xs" by (intro Min_in) simp_all
  then show "c - Min (set xs) \<in> set (map (\<lambda>x. c - x) xs)" by simp
qed

lemma Min_of_reflected:
  fixes xs :: "'a::linordered_ab_group_add list"
  assumes "xs \<noteq> []"
  shows "Min (set (map (\<lambda>x. c - x) xs)) = c - Max (set xs)"
proof (rule Min_eqI)
  show "finite (set (map (\<lambda>x. c - x) xs))" by simp
next
  fix y assume "y \<in> set (map (\<lambda>x. c - x) xs)"
  then obtain x where "x \<in> set xs" "y = c - x" by auto
  then show "c - Max (set xs) \<le> y" by (simp add: diff_left_mono)
next
  from assms have "Max (set xs) \<in> set xs" by (intro Max_in) simp_all
  then show "c - Max (set xs) \<in> set (map (\<lambda>x. c - x) xs)" by simp
qed

text \<open>
  Extrema of values that are each moved by at most \<open>\<delta>\<close> move by at most \<open>\<delta>\<close>.
\<close>

lemma Max_perturbed:
  fixes f h :: "'b \<Rightarrow> real"
  assumes "finite S" and "S \<noteq> {}" and "\<forall>x \<in> S. \<bar>f x - h x\<bar> \<le> \<delta>"
  shows "\<bar>Max (f ` S) - Max (h ` S)\<bar> \<le> \<delta>"
proof -
  have "Max (f ` S) \<le> Max (h ` S) + \<delta>"
  proof (rule Max.boundedI)
    fix a assume "a \<in> f ` S"
    then obtain x where x: "x \<in> S" "a = f x" by blast
    with assms(3) have "\<bar>f x - h x\<bar> \<le> \<delta>" by blast
    then have "f x \<le> h x + \<delta>" by linarith
    moreover from assms x have "h x \<le> Max (h ` S)" by simp
    ultimately show "a \<le> Max (h ` S) + \<delta>" using x by simp
  qed (use assms in simp_all)
  moreover have "Max (h ` S) \<le> Max (f ` S) + \<delta>"
  proof (rule Max.boundedI)
    fix a assume "a \<in> h ` S"
    then obtain x where x: "x \<in> S" "a = h x" by blast
    with assms(3) have "\<bar>f x - h x\<bar> \<le> \<delta>" by blast
    then have "h x \<le> f x + \<delta>" by linarith
    moreover from assms x have "f x \<le> Max (f ` S)" by simp
    ultimately show "a \<le> Max (f ` S) + \<delta>" using x by simp
  qed (use assms in simp_all)
  ultimately show ?thesis by linarith
qed

lemma Min_perturbed:
  fixes f h :: "'b \<Rightarrow> real"
  assumes "finite S" and "S \<noteq> {}" and "\<forall>x \<in> S. \<bar>f x - h x\<bar> \<le> \<delta>"
  shows "\<bar>Min (f ` S) - Min (h ` S)\<bar> \<le> \<delta>"
proof -
  have "Min (h ` S) - \<delta> \<le> Min (f ` S)"
  proof (rule Min.boundedI)
    fix a assume "a \<in> f ` S"
    then obtain x where x: "x \<in> S" "a = f x" by blast
    with assms(3) have "\<bar>f x - h x\<bar> \<le> \<delta>" by blast
    then have "h x - \<delta> \<le> f x" by linarith
    moreover from assms x have "Min (h ` S) \<le> h x" by simp
    ultimately show "Min (h ` S) - \<delta> \<le> a" using x by simp
  qed (use assms in simp_all)
  moreover have "Min (f ` S) - \<delta> \<le> Min (h ` S)"
  proof (rule Min.boundedI)
    fix a assume "a \<in> h ` S"
    then obtain x where x: "x \<in> S" "a = h x" by blast
    with assms(3) have "\<bar>f x - h x\<bar> \<le> \<delta>" by blast
    then have "f x - \<delta> \<le> h x" by linarith
    moreover from assms x have "Min (f ` S) \<le> f x" by simp
    ultimately show "Min (f ` S) - \<delta> \<le> a" using x by simp
  qed (use assms in simp_all)
  ultimately show ?thesis by linarith
qed

text \<open>The extrema of a grid of finite values are the extrema of the values.\<close>

lemma fold_float_max_Fin: "fold float_max (map Fin ys) (Fin y) = Fin (fold max ys y)"
  by (induction ys arbitrary: y) (simp_all add: float_max_def max_def)

lemma fold_float_min_Fin: "fold float_min (map Fin ys) (Fin y) = Fin (fold min ys y)"
  by (induction ys arbitrary: y) (simp_all add: float_min_def min_def)

lemma invert_finite:
  assumes "data g = map Fin xs"
  shows "invert rnd g = \<lparr>shape = shape g, data = map Fin (invert_values rnd xs)\<rparr>"
proof (cases xs)
  case Nil
  with assms show ?thesis by (simp add: invert_def invert_values_def)
next
  case (Cons x xs')
  have "Max (set (x # xs')) = fold max xs' x" "Min (set (x # xs')) = fold min xs' x"
    by (simp_all only: Max.set_eq_fold Min.set_eq_fold)
  with assms Cons show ?thesis
    by (simp add: invert_def invert_values_def fold_float_max_Fin fold_float_min_Fin)
qed

text \<open>
  Twice the contract, on the values: every rounding moves a value by at most \<open>\<delta>\<close>, and six
  of them lie between a value and what comes back for it.
\<close>

lemma invert_values_round_trip:
  assumes bound: "\<forall>x \<in> set xs. \<bar>x\<bar> \<le> M"
    and rnd: "rounds_within rnd (3 * M + 5 * \<delta>) \<delta>"
    and \<delta>: "0 \<le> \<delta>"
  shows "list_all2 (\<lambda>z x. \<bar>z - x\<bar> \<le> 6 * \<delta>) (invert_values rnd (invert_values rnd xs)) xs"
proof (cases "xs = []")
  case True
  then show ?thesis by (simp add: invert_values_def)
next
  case False
  define mx where "mx = Max (set xs)"
  define mn where "mn = Min (set xs)"
  define c where "c = rnd (mx + mn)"
  define ys where "ys = invert_values rnd xs"
  define c' where "c' = rnd (Max (set ys) + Min (set ys))"
  have R: "\<bar>rnd x - x\<bar> \<le> \<delta>" if "\<bar>x\<bar> \<le> 3 * M + 5 * \<delta>" for x
    using rnd that by (simp add: rounds_within_def)
  from False have "mx \<in> set xs" "mn \<in> set xs"
    by (simp_all add: mx_def mn_def)
  with bound have mxb: "\<bar>mx\<bar> \<le> M" and mnb: "\<bar>mn\<bar> \<le> M"
    by blast+
  have c: "\<bar>c - (mx + mn)\<bar> \<le> \<delta>"
    unfolding c_def using mxb mnb \<delta> by (intro R) linarith
  have ys: "ys = map (\<lambda>x. rnd (c - x)) xs"
    by (simp add: ys_def invert_values_def c_def mx_def mn_def)
  have y: "\<bar>rnd (c - x) - (c - x)\<bar> \<le> \<delta>" if "x \<in> set xs" for x
  proof (rule R)
    from that bound have "\<bar>x\<bar> \<le> M" by blast
    with c mxb mnb \<delta> show "\<bar>c - x\<bar> \<le> 3 * M + 5 * \<delta>" by linarith
  qed
  have set_ys: "set ys = (\<lambda>x. rnd (c - x)) ` set xs"
    by (simp add: ys)
  have mx': "\<bar>Max (set ys) - (c - mn)\<bar> \<le> \<delta>"
  proof -
    have "\<bar>Max ((\<lambda>x. rnd (c - x)) ` set xs) - Max ((\<lambda>x. c - x) ` set xs)\<bar> \<le> \<delta>"
      using False y by (intro Max_perturbed) simp_all
    moreover have "Max ((\<lambda>x. c - x) ` set xs) = c - mn"
      using Max_of_reflected [OF False, of c] by (simp add: mn_def)
    ultimately show ?thesis by (simp add: set_ys)
  qed
  have mn': "\<bar>Min (set ys) - (c - mx)\<bar> \<le> \<delta>"
  proof -
    have "\<bar>Min ((\<lambda>x. rnd (c - x)) ` set xs) - Min ((\<lambda>x. c - x) ` set xs)\<bar> \<le> \<delta>"
      using False y by (intro Min_perturbed) simp_all
    moreover have "Min ((\<lambda>x. c - x) ` set xs) = c - mx"
      using Min_of_reflected [OF False, of c] by (simp add: mx_def)
    ultimately show ?thesis by (simp add: set_ys)
  qed
  have c': "\<bar>c' - c\<bar> \<le> 4 * \<delta>"
  proof -
    from mx' mn' c mxb mnb \<delta> have "\<bar>Max (set ys) + Min (set ys)\<bar> \<le> 3 * M + 5 * \<delta>"
      by linarith
    then have "\<bar>c' - (Max (set ys) + Min (set ys))\<bar> \<le> \<delta>"
      unfolding c'_def by (rule R)
    with mx' mn' c show ?thesis by linarith
  qed
  have zs: "invert_values rnd ys = map (\<lambda>y. rnd (c' - y)) ys"
    by (simp add: invert_values_def c'_def)
  have "\<bar>rnd (c' - rnd (c - xs ! i)) - xs ! i\<bar> \<le> 6 * \<delta>" if "i < length xs" for i
  proof -
    from that have x: "xs ! i \<in> set xs" by simp
    from y [OF x] have e: "\<bar>rnd (c - xs ! i) - (c - xs ! i)\<bar> \<le> \<delta>" .
    from x bound have "\<bar>xs ! i\<bar> \<le> M" by blast
    with e c' \<delta> mxb have "\<bar>c' - rnd (c - xs ! i)\<bar> \<le> 3 * M + 5 * \<delta>" by linarith
    then have "\<bar>rnd (c' - rnd (c - xs ! i)) - (c' - rnd (c - xs ! i))\<bar> \<le> \<delta>" by (rule R)
    with e c' show ?thesis by linarith
  qed
  then show ?thesis
    unfolding ys_def [symmetric] zs by (simp add: ys list_all2_conv_all_nth)
qed

text \<open>
  C9, as the model has it. For a grid of finite values of magnitude at most \<open>M\<close>, in an
  arithmetic that is accurate to \<open>\<delta>\<close> up to \<open>3 M + 5 \<delta>\<close>: the inverse of the grid is
  the sum of its global extrema minus each value, each operation rounded; and the inverse
  of the inverse is a grid of the same shape whose every value is within \<open>6 \<delta>\<close> of the
  value it started from.
\<close>

theorem invert_round_trip:
  assumes "data g = map Fin xs" and "\<forall>x \<in> set xs. \<bar>x\<bar> \<le> M"
    and "rounds_within rnd (3 * M + 5 * \<delta>) \<delta>" and "0 \<le> \<delta>"
  shows "invert rnd g = \<lparr>shape = shape g, data = map Fin (invert_values rnd xs)\<rparr>
       \<and> (\<exists>zs. invert rnd (invert rnd g) = \<lparr>shape = shape g, data = map Fin zs\<rparr>
               \<and> list_all2 (\<lambda>z x. \<bar>z - x\<bar> \<le> 6 * \<delta>) zs xs)"
proof
  show once: "invert rnd g = \<lparr>shape = shape g, data = map Fin (invert_values rnd xs)\<rparr>"
    using assms(1) by (rule invert_finite)
  have "invert rnd (invert rnd g)
      = \<lparr>shape = shape g, data = map Fin (invert_values rnd (invert_values rnd xs))\<rparr>"
    by (simp add: once invert_finite [where xs = "invert_values rnd xs"])
  moreover have "list_all2 (\<lambda>z x. \<bar>z - x\<bar> \<le> 6 * \<delta>) (invert_values rnd (invert_values rnd xs)) xs"
    using assms(2,3,4) by (rule invert_values_round_trip)
  ultimately show "\<exists>zs. invert rnd (invert rnd g) = \<lparr>shape = shape g, data = map Fin zs\<rparr>
               \<and> list_all2 (\<lambda>z x. \<bar>z - x\<bar> \<le> 6 * \<delta>) zs xs"
    by blast
qed

lemma nearest_integer_rounds: "rounds_within nearest_integer B (1 / 2)"
  unfolding rounds_within_def nearest_integer_def
proof (intro allI impI)
  fix x :: real
  show "\<bar>of_int (round x) - x\<bar> \<le> 1 / 2"
    by (rule of_int_round_abs_le)
qed

theorem invert_round_trip_witness:
  "data \<lparr>shape = [1, 1, 1, 2], data = [Fin (2 / 5), Fin (27 / 10)]\<rparr> = map Fin [2 / 5, 27 / 10]
   \<and> list_all (\<lambda>x. \<bar>x\<bar> \<le> 3) [2 / 5, 27 / 10 :: real]
   \<and> rounds_within nearest_integer (3 * 3 + 5 * (1 / 2)) (1 / 2)
   \<and> (0 :: real) \<le> 1 / 2
   \<and> (\<exists>zs. invert nearest_integer
              (invert nearest_integer
                 \<lparr>shape = [1, 1, 1, 2], data = [Fin (2 / 5), Fin (27 / 10)]\<rparr>)
            = \<lparr>shape = [1, 1, 1, 2], data = map Fin zs\<rparr>
          \<and> list_all2 (\<lambda>z x. \<bar>z - x\<bar> \<le> 6 * (1 / 2)) zs [2 / 5, 27 / 10])"
proof -
  have d: "data \<lparr>shape = [1, 1, 1, 2], data = [Fin (2 / 5), Fin (27 / 10)]\<rparr>
             = map Fin [2 / 5, 27 / 10]"
    by simp
  have b: "\<forall>x \<in> set [2 / 5, 27 / 10 :: real]. \<bar>x\<bar> \<le> 3"
    by simp
  have r: "rounds_within nearest_integer (3 * 3 + 5 * (1 / 2)) (1 / 2)"
    by (rule nearest_integer_rounds)
  have p: "(0 :: real) \<le> 1 / 2"
    by simp
  from invert_round_trip [OF d b r p, THEN conjunct2] have
    "\<exists>zs. invert nearest_integer
              (invert nearest_integer
                 \<lparr>shape = [1, 1, 1, 2], data = [Fin (2 / 5), Fin (27 / 10)]\<rparr>)
            = \<lparr>shape = [1, 1, 1, 2], data = map Fin zs\<rparr>
          \<and> list_all2 (\<lambda>z x. \<bar>z - x\<bar> \<le> 6 * (1 / 2)) zs [2 / 5, 27 / 10]"
    by (simp only: tensor.select_convs)
  moreover have "list_all (\<lambda>x. \<bar>x\<bar> \<le> 3) [2 / 5, 27 / 10 :: real]"
    by simp
  ultimately show ?thesis using d r p by blast
qed

text \<open>
  C9 as stated fails on a grid that holds an infinity, even with exact arithmetic: the grid
  of +infinity and 1 inverts to NaN and +infinity, and that to two NaN.
\<close>

theorem invert_infinity_not_restored:
  "invert id (invert id \<lparr>shape = [1, 1, 1, 2], data = [PosInf, Fin 1]\<rparr>)
     = \<lparr>shape = [1, 1, 1, 2], data = [NaN, NaN]\<rparr>
   \<and> invert id (invert id \<lparr>shape = [1, 1, 1, 2], data = [PosInf, Fin 1]\<rparr>)
     \<noteq> \<lparr>shape = [1, 1, 1, 2], data = [PosInf, Fin 1]\<rparr>"
  by (simp add: invert_def float_max_def float_min_def)

text \<open>With exact arithmetic the round trip of a grid of finite values is exact.\<close>

lemma invert_exact:
  assumes "data g = map Fin xs"
  shows "invert id (invert id g) = g"
proof -
  have "\<forall>x \<in> set xs. \<bar>x\<bar> \<le> Max (abs ` set xs)"
    by simp
  moreover have "rounds_within id (3 * Max (abs ` set xs) + 5 * 0) 0"
    by (simp add: rounds_within_def)
  ultimately have "list_all2 (\<lambda>z x. \<bar>z - x\<bar> \<le> 6 * 0) (invert_values id (invert_values id xs)) xs"
    by (intro invert_values_round_trip) simp_all
  then have "invert_values id (invert_values id xs) = xs"
    by (simp add: list_all2_conv_all_nth nth_equalityI)
  moreover have "invert id (invert id g)
      = \<lparr>shape = shape g, data = map Fin (invert_values id (invert_values id xs))\<rparr>"
    by (simp add: invert_finite [OF assms] invert_finite [where xs = "invert_values id xs"])
  ultimately show ?thesis using assms by simp
qed

subsection \<open>Hysteresis threshold\<close>

text \<open>
  The flood fill computes the pixels built up one by one from the strong ones: it never
  leaves them, and it stops only when a pass adds nothing.
\<close>

lemma linked_subset: "p \<in> linked P adj weak strong \<Longrightarrow> p \<in> P"
  by (induction rule: linked.induct) simp_all

lemma set_grow:
  "set (grow ps adj weak cur) =
     {p \<in> set ps. p \<in> set cur \<or> (weak p \<and> (\<exists>q \<in> set cur. adj q p))}"
  by (simp add: grow_def)

lemma grow_sound:
  assumes "set cur \<subseteq> linked (set ps) adj weak strong"
  shows "set (grow ps adj weak cur) \<subseteq> linked (set ps) adj weak strong"
proof
  fix p assume "p \<in> set (grow ps adj weak cur)"
  then have p: "p \<in> set ps" and
    or: "p \<in> set cur \<or> (weak p \<and> (\<exists>q \<in> set cur. adj q p))"
    by (simp_all add: set_grow)
  from or show "p \<in> linked (set ps) adj weak strong"
  proof
    assume "p \<in> set cur"
    with assms show ?thesis by blast
  next
    assume "weak p \<and> (\<exists>q \<in> set cur. adj q p)"
    then obtain q where "weak p" "q \<in> set cur" "adj q p" by blast
    with assms p show ?thesis by (blast intro: linked.step)
  qed
qed

lemma flood_sound:
  "set cur \<subseteq> linked (set ps) adj weak strong
   \<Longrightarrow> set (flood ps adj weak cur) \<subseteq> linked (set ps) adj weak strong"
proof (induction ps adj weak cur rule: flood.induct)
  case (1 ps adj weak cur)
  show ?case
  proof (cases "length cur < length (grow ps adj weak cur)")
    case True
    from "1.prems" have "set (grow ps adj weak cur) \<subseteq> linked (set ps) adj weak strong"
      by (rule grow_sound)
    with "1.IH" [OF refl True] have
      "set (flood ps adj weak (grow ps adj weak cur)) \<subseteq> linked (set ps) adj weak strong" .
    with True show ?thesis by (subst flood.simps) (simp add: Let_def)
  next
    case False
    with "1.prems" show ?thesis by (subst flood.simps) (simp add: Let_def)
  qed
qed

text \<open>
  The pixels the flood keeps hold the ones it started from, and a pass adds nothing to them.
\<close>

lemma flood_closed:
  "distinct ps \<Longrightarrow> distinct cur \<Longrightarrow> set cur \<subseteq> set ps
     \<Longrightarrow> set cur \<subseteq> set (flood ps adj weak cur)
       \<and> set (grow ps adj weak (flood ps adj weak cur)) = set (flood ps adj weak cur)"
proof (induction ps adj weak cur rule: flood.induct)
  case (1 ps adj weak cur)
  let ?nxt = "grow ps adj weak cur"
  from "1.prems"(3) have sub: "set cur \<subseteq> set ?nxt"
    by (auto simp: set_grow)
  from "1.prems"(1) have nxt: "distinct ?nxt" "set ?nxt \<subseteq> set ps"
    by (auto simp: grow_def)
  show ?case
  proof (cases "length cur < length ?nxt")
    case True
    from "1.IH" [OF refl True "1.prems"(1) nxt] sub True show ?thesis
      by (subst (1 2 3) flood.simps) (auto simp: Let_def)
  next
    case False
    with nxt(1) "1.prems"(2) have "card (set ?nxt) \<le> card (set cur)"
      by (simp add: distinct_card)
    with sub have "set cur = set ?nxt"
      by (intro card_seteq) simp_all
    with False show ?thesis
      by (subst (1 2 3) flood.simps) (simp add: Let_def)
  qed
qed

lemma flood_complete:
  assumes "distinct ps"
  shows "linked (set ps) adj weak strong \<subseteq> set (flood ps adj weak (filter strong ps))"
proof
  let ?R = "flood ps adj weak (filter strong ps)"
  from flood_closed [OF assms, of "filter strong ps" adj weak] assms
  have seeds: "set (filter strong ps) \<subseteq> set ?R" and closed: "set (grow ps adj weak ?R) = set ?R"
    by simp_all
  fix p assume "p \<in> linked (set ps) adj weak strong"
  then show "p \<in> set ?R"
  proof (induction rule: linked.induct)
    case (seed p)
    with seeds show ?case by auto
  next
    case (step q p)
    then have "p \<in> set (grow ps adj weak ?R)"
      by (auto simp: set_grow)
    with closed show ?case by simp
  qed
qed

lemma flood_linked:
  assumes "distinct ps"
  shows "set (flood ps adj weak (filter strong ps)) = linked (set ps) adj weak strong"
proof
  have "set (filter strong ps) \<subseteq> linked (set ps) adj weak strong"
    by (auto intro: linked.seed)
  then show "set (flood ps adj weak (filter strong ps)) \<subseteq> linked (set ps) adj weak strong"
    by (rule flood_sound)
next
  show "linked (set ps) adj weak strong \<subseteq> set (flood ps adj weak (filter strong ps))"
    using assms by (rule flood_complete)
qed

text \<open>Paths: the pixels built up one by one are the strong ones and the connected ones.\<close>

lemma path_from_snoc:
  "path_from adj s (path @ [p]) \<longleftrightarrow> path_from adj s path \<and> adj (last (s # path)) p"
  by (induction path arbitrary: s) auto

lemma path_end_linked:
  assumes "s \<in> linked P adj weak strong" and "set path \<subseteq> P" and "\<forall>q \<in> set path. weak q"
    and "path_from adj s path"
  shows "last (s # path) \<in> linked P adj weak strong"
  using assms
proof (induction path arbitrary: s)
  case Nil
  then show ?case by simp
next
  case (Cons p path)
  from Cons.prems have "p \<in> linked P adj weak strong"
    by (auto intro: linked.step)
  with Cons.IH [of p] Cons.prems show ?case by simp
qed

lemma linked_iff_connected:
  "p \<in> linked P adj weak strong \<longleftrightarrow>
     p \<in> P \<and> (strong p \<or> connected_to_strong P adj weak strong p)"
proof
  assume "p \<in> linked P adj weak strong"
  then show "p \<in> P \<and> (strong p \<or> connected_to_strong P adj weak strong p)"
  proof (induction rule: linked.induct)
    case (seed p)
    then show ?case by simp
  next
    case (step q p)
    from step.IH have "q \<in> P" by simp
    from step.IH have "strong q \<or> connected_to_strong P adj weak strong q" by simp
    then have "connected_to_strong P adj weak strong p"
    proof
      assume "strong q"
      with \<open>q \<in> P\<close> step.hyps have
        "q \<in> P \<and> strong q \<and> [p] \<noteq> [] \<and> set [p] \<subseteq> P \<and> (\<forall>r \<in> set [p]. weak r)
          \<and> path_from adj q [p] \<and> last [p] = p"
        by simp
      then show ?thesis unfolding connected_to_strong_def by blast
    next
      assume "connected_to_strong P adj weak strong q"
      then obtain s path where sp: "s \<in> P" "strong s" "path \<noteq> []" "set path \<subseteq> P"
        "\<forall>r \<in> set path. weak r" "path_from adj s path" "last path = q"
        unfolding connected_to_strong_def by blast
      with step.hyps have
        "s \<in> P \<and> strong s \<and> path @ [p] \<noteq> [] \<and> set (path @ [p]) \<subseteq> P
          \<and> (\<forall>r \<in> set (path @ [p]). weak r) \<and> path_from adj s (path @ [p])
          \<and> last (path @ [p]) = p"
        by (simp add: path_from_snoc)
      then show ?thesis unfolding connected_to_strong_def by blast
    qed
    with step.hyps show ?case by simp
  qed
next
  assume r: "p \<in> P \<and> (strong p \<or> connected_to_strong P adj weak strong p)"
  then have "strong p \<or> connected_to_strong P adj weak strong p" by simp
  then show "p \<in> linked P adj weak strong"
  proof
    assume "strong p"
    with r show ?thesis by (simp add: linked.seed)
  next
    assume "connected_to_strong P adj weak strong p"
    then obtain s path where sp: "s \<in> P" "strong s" "path \<noteq> []" "set path \<subseteq> P"
      "\<forall>r \<in> set path. weak r" "path_from adj s path" "last path = p"
      unfolding connected_to_strong_def by blast
    from sp(1,2) have "s \<in> linked P adj weak strong" by (rule linked.seed)
    from path_end_linked [OF this sp(4,5,6)] sp(3,7) show ?thesis by simp
  qed
qed

lemma mask_on_tabulated:
  assumes "p \<in> set (all_indices s)"
  shows "mask_on \<lparr>shape = s, data = map (\<lambda>p. if p \<in> K then Fin 1 else Fin 0) (all_indices s)\<rparr> p
     \<longleftrightarrow> p \<in> K"
  using assms by (simp add: mask_on_def bget_tabulated)

lemma hysteresis_threshold_result:
  assumes "shape weak_mask = shape strong_mask"
  shows "hysteresis_threshold k weak_mask strong_mask =
     Inr \<lparr>shape = shape weak_mask,
          data = map (\<lambda>p. if p \<in> linked (set (all_indices (shape weak_mask))) (adjacent k)
                                  (mask_on weak_mask) (mask_on strong_mask)
                           then Fin 1 else Fin 0)
                   (all_indices (shape weak_mask))\<rparr>"
  using assms
  by (simp add: hysteresis_threshold_def Let_def flood_linked [OF distinct_all_indices])

text \<open>The strip of 7 pixels, evaluated pass by pass.\<close>

lemma flood_unfold:
  "flood ps adj weak cur =
     (if length cur < length (grow ps adj weak cur) then flood ps adj weak (grow ps adj weak cur)
      else cur)"
  by (subst flood.simps) (simp add: Let_def)

lemma strip_indices:
  "all_indices [1, 1, 1, 7] =
     [[0, 0, 0, 0], [0, 0, 0, 1], [0, 0, 0, 2], [0, 0, 0, 3], [0, 0, 0, 4], [0, 0, 0, 5],
      [0, 0, 0, 6]]"
  by (simp add: upt_rec)

lemma strip_seeds:
  "filter (mask_on \<lparr>shape = [1, 1, 1, 7],
                     data = [Fin 1, Fin 0, Fin 0, Fin 0, Fin 0, Fin 0, Fin 0]\<rparr>)
     [[0, 0, 0, 0], [0, 0, 0, 1], [0, 0, 0, 2], [0, 0, 0, 3], [0, 0, 0, 4], [0, 0, 0, 5],
      [0, 0, 0, 6]]
   = [[0, 0, 0, 0]]"
  by (simp add: mask_on_def bget_def pad_shape_def)

lemma strip_flood:
  "flood
     [[0, 0, 0, 0], [0, 0, 0, 1], [0, 0, 0, 2], [0, 0, 0, 3], [0, 0, 0, 4], [0, 0, 0, 5],
      [0, 0, 0, 6]]
     (adjacent k)
     (mask_on \<lparr>shape = [1, 1, 1, 7],
                data = [Fin 0, Fin 1, Fin 1, Fin 1, Fin 1, Fin 0, Fin 1]\<rparr>)
     [[0, 0, 0, 0]]
   = [[0, 0, 0, 0], [0, 0, 0, 1], [0, 0, 0, 2], [0, 0, 0, 3], [0, 0, 0, 4]]"
  by (cases k) (simp_all add: flood_unfold grow_def mask_on_def bget_def pad_shape_def)

lemma strip_hysteresis:
  "hysteresis_threshold k
     \<lparr>shape = [1, 1, 1, 7], data = [Fin 0, Fin 1, Fin 1, Fin 1, Fin 1, Fin 0, Fin 1]\<rparr>
     \<lparr>shape = [1, 1, 1, 7], data = [Fin 1, Fin 0, Fin 0, Fin 0, Fin 0, Fin 0, Fin 0]\<rparr>
   = Inr \<lparr>shape = [1, 1, 1, 7], data = [Fin 1, Fin 1, Fin 1, Fin 1, Fin 1, Fin 0, Fin 0]\<rparr>"
proof -
  have "hysteresis_threshold k
     \<lparr>shape = [1, 1, 1, 7], data = [Fin 0, Fin 1, Fin 1, Fin 1, Fin 1, Fin 0, Fin 1]\<rparr>
     \<lparr>shape = [1, 1, 1, 7], data = [Fin 1, Fin 0, Fin 0, Fin 0, Fin 0, Fin 0, Fin 0]\<rparr>
   = Inr \<lparr>shape = [1, 1, 1, 7],
          data = map (\<lambda>p. if p \<in> set [[0::nat, 0, 0, 0], [0, 0, 0, 1], [0, 0, 0, 2], [0, 0, 0, 3],
                                       [0, 0, 0, 4]]
                           then Fin 1 else Fin 0)
                   [[0, 0, 0, 0], [0, 0, 0, 1], [0, 0, 0, 2], [0, 0, 0, 3], [0, 0, 0, 4],
                    [0, 0, 0, 5], [0, 0, 0, 6]]\<rparr>"
    unfolding hysteresis_threshold_def Let_def
    by (simp only: tensor.select_convs strip_indices strip_seeds strip_flood simp_thms if_False)
  then show ?thesis by simp
qed

text \<open>
  C8. For two binary masks of the same shape, the hysteresis threshold returns a binary mask
  of that shape whose pixels are exactly the strong pixels together with the pixels
  connected to a strong pixel through a path of weak pixels, for either connectivity. On
  the strip of 7 pixels with the strong pixel 0 and the weak pixels 1, 2, 3, 4 and 6, the
  output is the pixels 0 to 4: pixel 6 is not in it.
\<close>

theorem hysteresis_keeps_connected:
  assumes "binary_mask weak_mask" and "binary_mask strong_mask"
    and "shape weak_mask = shape strong_mask"
  shows "(\<exists>out. hysteresis_threshold k weak_mask strong_mask = Inr out
            \<and> shape out = shape weak_mask \<and> binary_mask out
            \<and> (\<forall>p \<in> set (all_indices (shape weak_mask)).
                  mask_on out p \<longleftrightarrow>
                    mask_on strong_mask p
                    \<or> connected_to_strong (set (all_indices (shape weak_mask))) (adjacent k)
                         (mask_on weak_mask) (mask_on strong_mask) p))
       \<and> hysteresis_threshold k
            \<lparr>shape = [1, 1, 1, 7], data = [Fin 0, Fin 1, Fin 1, Fin 1, Fin 1, Fin 0, Fin 1]\<rparr>
            \<lparr>shape = [1, 1, 1, 7], data = [Fin 1, Fin 0, Fin 0, Fin 0, Fin 0, Fin 0, Fin 0]\<rparr>
          = Inr \<lparr>shape = [1, 1, 1, 7],
                 data = [Fin 1, Fin 1, Fin 1, Fin 1, Fin 1, Fin 0, Fin 0]\<rparr>"
proof
  let ?ps = "all_indices (shape weak_mask)"
  let ?K = "linked (set ?ps) (adjacent k) (mask_on weak_mask) (mask_on strong_mask)"
  let ?out = "\<lparr>shape = shape weak_mask,
                data = map (\<lambda>p. if p \<in> ?K then Fin 1 else Fin 0) ?ps\<rparr>"
  have res: "hysteresis_threshold k weak_mask strong_mask = Inr ?out"
    using assms(3) by (rule hysteresis_threshold_result)
  have shp: "shape ?out = shape weak_mask" by simp
  have bin: "binary_mask ?out"
    by (auto simp: binary_mask_def wf_tensor_def length_all_indices list_all_iff)
  have px: "\<forall>p \<in> set ?ps. mask_on ?out p \<longleftrightarrow>
              mask_on strong_mask p
              \<or> connected_to_strong (set ?ps) (adjacent k) (mask_on weak_mask)
                   (mask_on strong_mask) p"
  proof
    fix p assume p: "p \<in> set ?ps"
    then have "mask_on ?out p \<longleftrightarrow> p \<in> ?K"
      by (rule mask_on_tabulated)
    with p show "mask_on ?out p \<longleftrightarrow>
              mask_on strong_mask p
              \<or> connected_to_strong (set ?ps) (adjacent k) (mask_on weak_mask)
                   (mask_on strong_mask) p"
      by (simp add: linked_iff_connected)
  qed
  from res shp bin px
  show "\<exists>out. hysteresis_threshold k weak_mask strong_mask = Inr out
            \<and> shape out = shape weak_mask \<and> binary_mask out
            \<and> (\<forall>p \<in> set (all_indices (shape weak_mask)).
                  mask_on out p \<longleftrightarrow>
                    mask_on strong_mask p
                    \<or> connected_to_strong (set (all_indices (shape weak_mask))) (adjacent k)
                         (mask_on weak_mask) (mask_on strong_mask) p)"
    by blast
next
  show "hysteresis_threshold k
            \<lparr>shape = [1, 1, 1, 7], data = [Fin 0, Fin 1, Fin 1, Fin 1, Fin 1, Fin 0, Fin 1]\<rparr>
            \<lparr>shape = [1, 1, 1, 7], data = [Fin 1, Fin 0, Fin 0, Fin 0, Fin 0, Fin 0, Fin 0]\<rparr>
          = Inr \<lparr>shape = [1, 1, 1, 7],
                 data = [Fin 1, Fin 1, Fin 1, Fin 1, Fin 1, Fin 0, Fin 0]\<rparr>"
    by (rule strip_hysteresis)
qed

theorem hysteresis_keeps_connected_witness:
  "binary_mask \<lparr>shape = [1, 1, 1, 7], data = [Fin 0, Fin 1, Fin 1, Fin 1, Fin 1, Fin 0, Fin 1]\<rparr>
   \<and> binary_mask \<lparr>shape = [1, 1, 1, 7], data = [Fin 1, Fin 0, Fin 0, Fin 0, Fin 0, Fin 0, Fin 0]\<rparr>
   \<and> connected_to_strong (set (all_indices [1, 1, 1, 7])) (adjacent Four)
        (mask_on \<lparr>shape = [1, 1, 1, 7], data = [Fin 0, Fin 1, Fin 1, Fin 1, Fin 1, Fin 0, Fin 1]\<rparr>)
        (mask_on \<lparr>shape = [1, 1, 1, 7], data = [Fin 1, Fin 0, Fin 0, Fin 0, Fin 0, Fin 0, Fin 0]\<rparr>)
        [0, 0, 0, 4]
   \<and> \<not> connected_to_strong (set (all_indices [1, 1, 1, 7])) (adjacent Four)
        (mask_on \<lparr>shape = [1, 1, 1, 7], data = [Fin 0, Fin 1, Fin 1, Fin 1, Fin 1, Fin 0, Fin 1]\<rparr>)
        (mask_on \<lparr>shape = [1, 1, 1, 7], data = [Fin 1, Fin 0, Fin 0, Fin 0, Fin 0, Fin 0, Fin 0]\<rparr>)
        [0, 0, 0, 6]"
  (is "binary_mask ?W \<and> binary_mask ?S \<and> ?kept4 \<and> \<not> ?kept6")
proof -
  let ?O = "\<lparr>shape = [1, 1, 1, 7], data = [Fin 1, Fin 1, Fin 1, Fin 1, Fin 1, Fin 0, Fin 0 :: float]\<rparr>"
  have W: "binary_mask ?W" and S: "binary_mask ?S"
    by (simp_all add: binary_mask_def wf_tensor_def)
  have same: "shape ?W = shape ?S" by simp
  note at_strip = hysteresis_keeps_connected [OF W S same, of Four]
  from at_strip have res: "hysteresis_threshold Four ?W ?S = Inr ?O"
    by (rule conjunct2)
  from at_strip obtain out where out: "hysteresis_threshold Four ?W ?S = Inr out"
    and px: "\<forall>p \<in> set (all_indices (shape ?W)).
               mask_on out p \<longleftrightarrow>
                 mask_on ?S p
                 \<or> connected_to_strong (set (all_indices (shape ?W))) (adjacent Four)
                      (mask_on ?W) (mask_on ?S) p"
    by blast
  from out res have "out = ?O" by simp
  with px have px': "\<forall>p \<in> set (all_indices [1, 1, 1, 7]).
               mask_on ?O p \<longleftrightarrow>
                 mask_on ?S p
                 \<or> connected_to_strong (set (all_indices [1, 1, 1, 7])) (adjacent Four)
                      (mask_on ?W) (mask_on ?S) p"
    by simp
  have i4: "[0, 0, 0, 4] \<in> set (all_indices [1, 1, 1, 7])"
    and i6: "[0, 0, 0, 6] \<in> set (all_indices [1, 1, 1, 7])"
    by (simp_all add: strip_indices)
  have v4: "mask_on ?O [0, 0, 0, 4]" "\<not> mask_on ?S [0, 0, 0, 4]"
    and v6: "\<not> mask_on ?O [0, 0, 0, 6]" "\<not> mask_on ?S [0, 0, 0, 6]"
    by (simp_all add: mask_on_def bget_def pad_shape_def)
  from px' i4 v4 have "?kept4" by blast
  moreover from px' i6 v6 have "\<not> ?kept6" by blast
  ultimately show ?thesis using W S by blast
qed

end
